theory Spec2Isabelle
  imports Complex_Main
begin

section \<open>The timer store (database.py)\<close>

text \<open>
  The two tables of \<^verbatim>\<open>create_tables\<close>. The \<^verbatim>\<open>users\<close> table is a map from its primary
  key \<^verbatim>\<open>user_id\<close> to the rest of the row; the \<^verbatim>\<open>timers\<close> table is the list of its rows
  in insertion (rowid) order, since rows are never deleted. The text column \<^verbatim>\<open>status\<close>
  only ever holds the three literals the code writes. The \<^verbatim>\<open>created_at\<close> columns are
  never read and are left out. A \<^verbatim>\<open>datetime\<close> is the microsecond count of Python's naive
  local \<^verbatim>\<open>datetime\<close> (counted from 0001-01-01); the columns \<^verbatim>\<open>start_time\<close> and
  \<^verbatim>\<open>end_time\<close> hold what \<^verbatim>\<open>timestamp()\<close> makes of it, a float of seconds, here the
  real number it stands for. \<^verbatim>\<open>timer_seq\<close> is the row of
  \<^verbatim>\<open>sqlite_sequence\<close> that \<^verbatim>\<open>AUTOINCREMENT\<close> keeps for the table. Column values
  are unbounded integers: the ids and numbers the code computes grow by one per inserted
  row, and the 64-bit range of an SQLite INTEGER is written out where a Python int is
  bound to a statement.
\<close>

datatype status = Active | Completed | Cancelled

record user =
  username :: string
  active_timers :: int

record timer =
  timer_id :: int
  user_id :: int
  start_time :: real
  end_time :: real
  duration :: int
  timer_number :: int
  status :: status
  notified :: bool

record database =
  users :: "int \<rightharpoonup> user"
  timers :: "timer list"
  timer_seq :: int

text \<open>
  Every operation wraps its body in \<^verbatim>\<open>try: ... except Exception\<close>. The exceptions are
  values of \<open>error\<close>; a part of an operation returns \<open>error + result\<close> and the
  operation maps \<open>Inl\<close> to its failure value. A failure of the storage layer itself
  (the connection or a statement raising, a locked database) is an input of the model:
  \<open>StorageFails\<close> makes the part raise before anything is committed, so the tables
  stay as they were.

  The operations open no transaction of their own. A statement that writes opens one
  implicitly, which the \<^verbatim>\<open>commit\<close> closes; a \<^verbatim>\<open>SELECT\<close> before the first write runs
  outside of it, and every statement is awaited. So \<^verbatim>\<open>add_timer\<close> and
  \<^verbatim>\<open>check_expired_timers\<close> have two parts, the reading one and the writing one, and
  other calls can run between the two; each part is one atomic transition.
  \<^verbatim>\<open>add_user\<close> and \<^verbatim>\<open>delete_timer\<close> only write and are one transition each.

  \<^verbatim>\<open>datetime.timestamp()\<close> depends on the platform and the time zone and raises for
  some values (ValueError, OverflowError, OSError); it is the parameter \<open>timestamp\<close>
  of the operations that call it.
\<close>

datatype error =
  OverflowError | SqliteError | FileNotFoundError | SameFileError | DatabaseError
  | IntegrityCheckFailed | ValueError

datatype storage = StorageOk | StorageFails

definition create_tables :: database where
  "create_tables = \<lparr>users = Map.empty, timers = [], timer_seq = 0\<rparr>"

text \<open>An SQLite INTEGER is a signed 64-bit value; binding a larger Python int raises.\<close>

definition fits_int64 :: "int \<Rightarrow> bool" where
  "fits_int64 n = (- (2 ^ 63) \<le> n \<and> n < 2 ^ 63)"

text \<open>
  \<^verbatim>\<open>SELECT COUNT(*) FROM timers WHERE user_id = ? AND status = 'active'\<close>. In
  \<^verbatim>\<open>add_timer\<close> the literal is written in double quotes; no column has that name, and
  SQLite then reads it as the string.
\<close>

definition active_count :: "database \<Rightarrow> int \<Rightarrow> int" where
  "active_count db uid =
     int (length (filter (\<lambda>t. user_id t = uid \<and> status t = Active) (timers db)))"

text \<open>\<^verbatim>\<open>MAX\<close> over a column (NULL, here \<open>None\<close>, on no rows) and \<^verbatim>\<open>COALESCE\<close>.\<close>

definition sql_max :: "int list \<Rightarrow> int option" where
  "sql_max xs = (case xs of [] \<Rightarrow> None | y # ys \<Rightarrow> Some (fold max ys y))"

definition coalesce :: "int option \<Rightarrow> int \<Rightarrow> int" where
  "coalesce v d = (case v of None \<Rightarrow> d | Some x \<Rightarrow> x)"

text \<open>\<^verbatim>\<open>(SELECT COALESCE(MAX(timer_number), 0) + 1 FROM timers WHERE user_id = ?)\<close>\<close>

definition next_timer_number :: "database \<Rightarrow> int \<Rightarrow> int" where
  "next_timer_number db uid =
     coalesce (sql_max (map timer_number (filter (\<lambda>t. user_id t = uid) (timers db)))) 0 + 1"

text \<open>
  The rowid of an \<^verbatim>\<open>INTEGER PRIMARY KEY AUTOINCREMENT\<close> column: one more than the
  largest rowid the table holds or has ever held.
\<close>

definition next_timer_id :: "database \<Rightarrow> int" where
  "next_timer_id db =
     max (timer_seq db) (coalesce (sql_max (map timer_id (timers db))) 0) + 1"

text \<open>
  \<^verbatim>\<open>UPDATE users SET active_timers = (SELECT COUNT(*) ...) WHERE user_id = ?\<close>: no row of
  \<^verbatim>\<open>users\<close> for the id, nothing updated.
\<close>

definition update_active_timers :: "database \<Rightarrow> int \<Rightarrow> database" where
  "update_active_timers db uid =
     (case users db uid of
        None \<Rightarrow> db
      | Some u \<Rightarrow> db\<lparr>users := (users db)(uid \<mapsto> u\<lparr>active_timers := active_count db uid\<rparr>)\<rparr>)"

text \<open>The same update without the \<^verbatim>\<open>WHERE\<close>: every row of \<^verbatim>\<open>users\<close>.\<close>

definition update_all_active_timers :: "database \<Rightarrow> database" where
  "update_all_active_timers db =
     db\<lparr>users := (\<lambda>k. map_option (\<lambda>u. u\<lparr>active_timers := active_count db k\<rparr>) (users db k))\<rparr>"

subsection \<open>add_user\<close>

definition add_user :: "storage \<Rightarrow> database \<Rightarrow> int \<Rightarrow> string \<Rightarrow> bool \<times> database" where
  "add_user io db uid name =
     (if io = StorageFails then (False, db)
      else if \<not> fits_int64 uid then (False, db)
      else (True,
            case users db uid of
              Some u \<Rightarrow> db
            | None \<Rightarrow> db\<lparr>users := (users db)(uid \<mapsto> \<lparr>username = name, active_timers = 0\<rparr>)\<rparr>))"

subsection \<open>add_timer\<close>

text \<open>
  \<^verbatim>\<open>timedelta(hours=duration)\<close> raises OverflowError when the day count leaves
  \<open>\<plusminus>999999999\<close>; \<^verbatim>\<open>start_time + delta\<close> raises it when the result leaves the years
  1..9999 (3652059 days).
\<close>

definition timedelta_hours :: "int \<Rightarrow> error + int" where
  "timedelta_hours h =
     (if 999999999 < \<bar>h div 24\<bar> then Inl OverflowError else Inr (h * 3600000000))"

definition datetime_add :: "int \<Rightarrow> int \<Rightarrow> error + int" where
  "datetime_add t d =
     (if 0 \<le> t + d \<and> t + d < 3652059 * 86400000000 then Inr (t + d) else Inl OverflowError)"

text \<open>
  The \<^verbatim>\<open>INSERT INTO timers\<close> of \<^verbatim>\<open>add_timer\<close>: the new row gets the next rowid and the
  next timer number of the user, and \<^verbatim>\<open>sqlite_sequence\<close> records the rowid.
\<close>

definition insert_timer :: "database \<Rightarrow> int \<Rightarrow> real \<Rightarrow> real \<Rightarrow> int \<Rightarrow> database" where
  "insert_timer db uid start_ts end_ts dur =
     db\<lparr>timers := timers db @
            [\<lparr>timer_id = next_timer_id db, user_id = uid, start_time = start_ts,
              end_time = end_ts, duration = dur,
              timer_number = next_timer_number db uid,
              status = Active, notified = False\<rparr>],
        timer_seq := next_timer_id db\<rparr>"

text \<open>
  The reading part of \<^verbatim>\<open>add_timer\<close> (lines 81 to 91): the two datetimes, the connection
  and the \<^verbatim>\<open>SELECT COUNT\<close>. \<open>now\<close> is \<^verbatim>\<open>datetime.now()\<close>. The limit is the literal 3 of
  line 90; reaching it is the early \<^verbatim>\<open>return None\<close>, here \<open>Inr None\<close>. Otherwise the
  call goes on with \<^verbatim>\<open>start_time\<close> and \<^verbatim>\<open>end_time\<close>.
\<close>

definition add_timer_select ::
  "storage \<Rightarrow> database \<Rightarrow> int \<Rightarrow> int \<Rightarrow> int \<Rightarrow> error + (int \<times> int) option" where
  "add_timer_select io db uid dur now =
     (case timedelta_hours dur of
        Inl e \<Rightarrow> Inl e
      | Inr delta \<Rightarrow>
          (case datetime_add now delta of
             Inl e \<Rightarrow> Inl e
           | Inr end_t \<Rightarrow>
               if io = StorageFails then Inl SqliteError
               else if \<not> fits_int64 uid then Inl OverflowError
               else if 3 \<le> active_count db uid then Inr None
               else Inr (Some (now, end_t))))"

text \<open>
  The writing part of \<^verbatim>\<open>add_timer\<close> (lines 94 to 122), on the tables as they are when
  it runs: the two \<^verbatim>\<open>timestamp()\<close> calls that build the parameters, the
  \<^verbatim>\<open>INSERT\<close>, the \<^verbatim>\<open>UPDATE users\<close> and the commit. It yields \<^verbatim>\<open>cursor.lastrowid\<close>, the
  rowid of the new row.
\<close>

definition add_timer_insert ::
  "(int \<Rightarrow> error + real) \<Rightarrow> storage \<Rightarrow> database \<Rightarrow> int \<Rightarrow> int \<Rightarrow> int \<Rightarrow> int
     \<Rightarrow> error + (int \<times> database)" where
  "add_timer_insert timestamp io db uid dur start_t end_t =
     (case timestamp start_t of
        Inl e \<Rightarrow> Inl e
      | Inr start_ts \<Rightarrow>
          (case timestamp end_t of
             Inl e \<Rightarrow> Inl e
           | Inr end_ts \<Rightarrow>
               if io = StorageFails then Inl SqliteError
               else if fits_int64 uid \<and> fits_int64 dur
               then Inr (next_timer_id db,
                         update_active_timers (insert_timer db uid start_ts end_ts dur) uid)
               else Inl OverflowError))"

text \<open>
  \<^verbatim>\<open>add_timer\<close> when no other call runs between its two parts: both see the same
  tables. Every exception and the limit give \<^verbatim>\<open>None\<close>.
\<close>

definition add_timer ::
  "(int \<Rightarrow> error + real) \<Rightarrow> storage \<Rightarrow> database \<Rightarrow> int \<Rightarrow> int \<Rightarrow> int
     \<Rightarrow> int option \<times> database" where
  "add_timer timestamp io db uid dur now =
     (case add_timer_select io db uid dur now of
        Inl e \<Rightarrow> (None, db)
      | Inr None \<Rightarrow> (None, db)
      | Inr (Some (start_t, end_t)) \<Rightarrow>
          (case add_timer_insert timestamp io db uid dur start_t end_t of
             Inl e \<Rightarrow> (None, db)
           | Inr (tid, db') \<Rightarrow> (Some tid, db')))"

subsection \<open>check_expired_timers\<close>

text \<open>
  The \<^verbatim>\<open>SELECT t.*, u.username ... JOIN users u\<close>: a row per active, due, not yet
  notified timer whose user has a row in \<^verbatim>\<open>users\<close>, paired with the username.
  \<open>current_time\<close> is the float \<^verbatim>\<open>datetime.now().timestamp()\<close>.
\<close>

definition select_expired :: "database \<Rightarrow> real \<Rightarrow> (timer \<times> string) list" where
  "select_expired db current_time =
     concat (map (\<lambda>t. case users db (user_id t) of
                         None \<Rightarrow> []
                       | Some u \<Rightarrow> [(t, username u)])
        (filter (\<lambda>t. status t = Active \<and> end_time t \<le> current_time \<and> \<not> notified t)
           (timers db)))"

text \<open>\<^verbatim>\<open>UPDATE timers SET status = 'completed', notified = TRUE WHERE timer_id IN (...)\<close>\<close>

definition mark_completed :: "int list \<Rightarrow> database \<Rightarrow> database" where
  "mark_completed timer_ids db =
     db\<lparr>timers := map (\<lambda>t. if timer_id t \<in> set timer_ids
                             then t\<lparr>status := Completed, notified := True\<rparr> else t)
                      (timers db)\<rparr>"

text \<open>The reading part of \<^verbatim>\<open>check_expired_timers\<close> (lines 146 to 157).\<close>

definition check_expired_select ::
  "(int \<Rightarrow> error + real) \<Rightarrow> storage \<Rightarrow> database \<Rightarrow> int \<Rightarrow> error + (timer \<times> string) list" where
  "check_expired_select timestamp io db now =
     (case timestamp now of
        Inl e \<Rightarrow> Inl e
      | Inr current_time \<Rightarrow>
          if io = StorageFails then Inl SqliteError
          else Inr (select_expired db current_time))"

text \<open>
  The writing part (lines 160 to 181), on the tables as they are when it runs: for a
  selection that is not empty, the \<^verbatim>\<open>UPDATE\<close> by the ids selected, the recount for
  every user and the commit. It returns the selection.
\<close>

definition check_expired_update ::
  "storage \<Rightarrow> database \<Rightarrow> (timer \<times> string) list
     \<Rightarrow> error + ((timer \<times> string) list \<times> database)" where
  "check_expired_update io db expired_timers =
     (if expired_timers = [] then Inr (expired_timers, db)
      else if io = StorageFails then Inl SqliteError
      else
        let timer_ids = map (\<lambda>r. timer_id (fst r)) expired_timers
        in Inr (expired_timers, update_all_active_timers (mark_completed timer_ids db)))"

text \<open>
  \<^verbatim>\<open>check_expired_timers\<close> when no other call runs between its two parts. Every
  exception gives the empty list.
\<close>

definition check_expired_timers ::
  "(int \<Rightarrow> error + real) \<Rightarrow> storage \<Rightarrow> database \<Rightarrow> int
     \<Rightarrow> (timer \<times> string) list \<times> database" where
  "check_expired_timers timestamp io db now =
     (case check_expired_select timestamp io db now of
        Inl e \<Rightarrow> ([], db)
      | Inr expired_timers \<Rightarrow>
          (case check_expired_update io db expired_timers of
             Inl e \<Rightarrow> ([], db)
           | Inr r \<Rightarrow> r))"

subsection \<open>delete_timer\<close>

text \<open>
  \<^verbatim>\<open>UPDATE timers SET status = 'cancelled' WHERE user_id = ? AND timer_number = ? AND
  status = 'active'\<close>
\<close>

definition cancel_timer :: "database \<Rightarrow> int \<Rightarrow> int \<Rightarrow> database" where
  "cancel_timer db uid num =
     db\<lparr>timers := map (\<lambda>t. if user_id t = uid \<and> timer_number t = num \<and> status t = Active
                             then t\<lparr>status := Cancelled\<rparr> else t)
                      (timers db)\<rparr>"

definition delete_timer :: "storage \<Rightarrow> database \<Rightarrow> int \<Rightarrow> int \<Rightarrow> bool \<times> database" where
  "delete_timer io db uid num =
     (if io = StorageFails then (False, db)
      else if fits_int64 uid \<and> fits_int64 num
      then (True, update_active_timers (cancel_timer db uid num) uid)
      else (False, db))"

subsection \<open>Histories of calls\<close>

text \<open>
  A step of a history, with what the environment supplies to it: whether the storage
  layer fails during the step, and the clock reading. A step is a call of one of the
  store's operations that no other call interrupts, or the writing part alone of a call
  of \<^verbatim>\<open>add_timer\<close> or \<^verbatim>\<open>check_expired_timers\<close> whose reading part ran earlier: of
  \<^verbatim>\<open>add_timer\<close> with the datetimes it computed, of \<^verbatim>\<open>check_expired_timers\<close> with the rows
  it selected. The reading parts change nothing and are no steps.
\<close>

datatype op =
  AddUser int string | AddTimer int int | DeleteTimer int int | CheckExpiredTimers
  | AddTimerInsert int int int int | CheckExpiredUpdate "(timer \<times> string) list"

fun step :: "(int \<Rightarrow> error + real) \<Rightarrow> database \<Rightarrow> storage \<times> int \<times> op \<Rightarrow> database" where
  "step timestamp db (io, now, AddUser uid name) = snd (add_user io db uid name)"
| "step timestamp db (io, now, AddTimer uid dur) = snd (add_timer timestamp io db uid dur now)"
| "step timestamp db (io, now, DeleteTimer uid num) = snd (delete_timer io db uid num)"
| "step timestamp db (io, now, CheckExpiredTimers) =
     snd (check_expired_timers timestamp io db now)"
| "step timestamp db (io, now, AddTimerInsert uid dur start_t end_t) =
     (case add_timer_insert timestamp io db uid dur start_t end_t of
        Inl e \<Rightarrow> db
      | Inr (tid, db') \<Rightarrow> db')"
| "step timestamp db (io, now, CheckExpiredUpdate expired_timers) =
     (case check_expired_update io db expired_timers of
        Inl e \<Rightarrow> db
      | Inr (rows, db') \<Rightarrow> db')"

definition run ::
  "(int \<Rightarrow> error + real) \<Rightarrow> database \<Rightarrow> (storage \<times> int \<times> op) list \<Rightarrow> database" where
  "run timestamp db calls = foldl (step timestamp) db calls"

text \<open>
  A \<open>timestamp\<close> for the examples: the local time zone is UTC and nothing is rounded.
\<close>

definition utc_timestamp :: "int \<Rightarrow> error + real" where
  "utc_timestamp t = Inr (real_of_int (t - 62135596800000000) / 1000000)"

section \<open>Configuration (config.py) and the /timer handler (main.py)\<close>

record config =
  bot_token :: string
  max_timers :: int
  max_duration :: int
  min_duration :: int
  backup_interval :: int
  maintenance_interval :: int
  backup_keep_days :: int
  check_interval :: int

text \<open>The dataclass constructor with its defaults, as \<^verbatim>\<open>Config(bot_token=token)\<close>.\<close>

definition Config :: "string \<Rightarrow> config" where
  "Config token =
     \<lparr>bot_token = token, max_timers = 3, max_duration = 168, min_duration = 1,
      backup_interval = 24 * 60 * 60, maintenance_interval = 12 * 60 * 60,
      backup_keep_days = 7, check_interval = 60\<rparr>"

text \<open>\<open>getenv\<close> is the environment after \<^verbatim>\<open>load_dotenv()\<close>.\<close>

definition load_config :: "(string \<rightharpoonup> string) \<Rightarrow> error + config" where
  "load_config getenv =
     (case getenv ''BOT_TOKEN'' of
        None \<Rightarrow> Inl ValueError
      | Some token \<Rightarrow> if token = [] then Inl ValueError else Inr (Config token))"

text \<open>
  \<^verbatim>\<open>cmd_timer\<close> from the range check of line 99 on, the duration already parsed. The
  texts of the answers are abstracted to what they report: the bounds, the limit
  \<^verbatim>\<open>self.config.max_timers\<close>, or success.
\<close>

datatype answer = BadDuration int int | LimitReached int | TimerSet int

definition cmd_timer ::
  "config \<Rightarrow> (int \<Rightarrow> error + real) \<Rightarrow> storage \<Rightarrow> database \<Rightarrow> int \<Rightarrow> int \<Rightarrow> int
     \<Rightarrow> answer \<times> database" where
  "cmd_timer cfg timestamp io db uid dur now =
     (if \<not> (min_duration cfg \<le> dur \<and> dur \<le> max_duration cfg)
      then (BadDuration (min_duration cfg) (max_duration cfg), db)
      else
        (case add_timer timestamp io db uid dur now of
           (None, db') \<Rightarrow> (LimitReached (max_timers cfg), db')
         | (Some tid, db') \<Rightarrow> (TimerSet tid, db')))"

section \<open>The backup manager (backup.py)\<close>

text \<open>
  Files are their contents, found by path. What SQLite does with a file is a parameter:
  \<open>pragma\<close> is \<^verbatim>\<open>PRAGMA integrity_check\<close> on a file's content, returning the first
  column of its first row or raising (a file that is no database); \<open>vacuum\<close> is the
  content \<^verbatim>\<open>VACUUM INTO\<close> writes for a database. Paths are compared as strings; links
  and directories are not modelled.
\<close>

type_synonym content = string

type_synonym filesystem = "string \<rightharpoonup> content"

text \<open>\<^verbatim>\<open>shutil.copy2\<close>: the same file (SameFileError), a missing source, or the copy.\<close>

definition copy2 :: "filesystem \<Rightarrow> string \<Rightarrow> string \<Rightarrow> error + filesystem" where
  "copy2 fs src dst =
     (case fs src of
        None \<Rightarrow> Inl FileNotFoundError
      | Some c \<Rightarrow> if src = dst then Inl SameFileError else Inr (fs(dst \<mapsto> c)))"

definition unlink :: "filesystem \<Rightarrow> string \<Rightarrow> error + filesystem" where
  "unlink fs p =
     (case fs p of
        None \<Rightarrow> Inl FileNotFoundError
      | Some c \<Rightarrow> Inr (fs(p := None)))"

text \<open>\<^verbatim>\<open>aiosqlite.connect\<close> creates a database file that does not exist, empty.\<close>

definition connect :: "filesystem \<Rightarrow> string \<Rightarrow> filesystem" where
  "connect fs p = (case fs p of None \<Rightarrow> fs(p \<mapsto> []) | Some c \<Rightarrow> fs)"

definition read_file :: "filesystem \<Rightarrow> string \<Rightarrow> content" where
  "read_file fs p = (case fs p of None \<Rightarrow> [] | Some c \<Rightarrow> c)"

subsection \<open>check_database_integrity (database.py)\<close>

text \<open>
  \<^verbatim>\<open>check_database_integrity\<close> of database.py on the file \<open>db_name\<close>: \<^verbatim>\<open>True\<close> when the
  pragma answers \<^verbatim>\<open>ok\<close>, \<^verbatim>\<open>False\<close> when it answers anything else or raises.
\<close>

definition check_database_integrity ::
  "(content \<Rightarrow> error + string) \<Rightarrow> filesystem \<Rightarrow> string \<Rightarrow> bool \<times> filesystem" where
  "check_database_integrity pragma fs db_name =
     (let fs1 = connect fs db_name in
      case pragma (read_file fs1 db_name) of
        Inl e \<Rightarrow> (False, fs1)
      | Inr result \<Rightarrow> if result \<noteq> ''ok'' then (False, fs1) else (True, fs1))"

subsection \<open>create_backup\<close>

text \<open>
  \<open>timestamp\<close> is \<^verbatim>\<open>datetime.now().strftime("%Y%m%d_%H%M%S")\<close>. \<^verbatim>\<open>VACUUM INTO\<close> raises
  when its target exists and is not empty; every exception is the \<^verbatim>\<open>return False\<close> of
  the handler.
\<close>

definition create_backup ::
  "(content \<Rightarrow> error + string) \<Rightarrow> (content \<Rightarrow> content) \<Rightarrow> string \<Rightarrow> string \<Rightarrow> string
     \<Rightarrow> filesystem \<Rightarrow> bool \<times> filesystem" where
  "create_backup pragma vacuum backup_dir db_path timestamp fs =
     (let backup_path = backup_dir @ ''/'' @ ''backup_'' @ timestamp @ ''.db'';
          fs1 = connect fs db_path
      in case pragma (read_file fs1 db_path) of
           Inl e \<Rightarrow> (False, fs1)
         | Inr result \<Rightarrow>
             if result \<noteq> ''ok'' then (False, fs1)
             else if fs1 backup_path \<noteq> None \<and> fs1 backup_path \<noteq> Some [] then (False, fs1)
             else (True, fs1(backup_path \<mapsto> vacuum (read_file fs1 db_path))))"

subsection \<open>restore_from_backup\<close>

text \<open>
  The inner \<^verbatim>\<open>try\<close>: its result is the file system after it, or the exception together
  with the file system at the point where it was raised.
\<close>

definition restore_try ::
  "(content \<Rightarrow> error + string) \<Rightarrow> string \<Rightarrow> string \<Rightarrow> string \<Rightarrow> filesystem
     \<Rightarrow> (error \<times> filesystem) + filesystem" where
  "restore_try pragma db_path backup_path temp_backup fs =
     (case copy2 fs backup_path db_path of
        Inl e \<Rightarrow> Inl (e, fs)
      | Inr fs1 \<Rightarrow>
          (let fs2 = connect fs1 db_path in
           case pragma (read_file fs2 db_path) of
             Inl e \<Rightarrow> Inl (e, fs2)
           | Inr result \<Rightarrow>
               if result \<noteq> ''ok'' then Inl (IntegrityCheckFailed, fs2)
               else (case unlink fs2 temp_backup of
                       Inl e \<Rightarrow> Inl (e, fs2)
                     | Inr fs3 \<Rightarrow> Inr fs3)))"

text \<open>
  The inner handler: copy the side file back, remove it, re-raise; the outer handler
  turns every exception into \<^verbatim>\<open>return False\<close>.
\<close>

definition restore_except :: "string \<Rightarrow> string \<Rightarrow> filesystem \<Rightarrow> bool \<times> filesystem" where
  "restore_except db_path temp_backup fs =
     (case copy2 fs temp_backup db_path of
        Inl e \<Rightarrow> (False, fs)
      | Inr fs1 \<Rightarrow>
          (case unlink fs1 temp_backup of
             Inl e \<Rightarrow> (False, fs1)
           | Inr fs2 \<Rightarrow> (False, fs2)))"

definition restore_from_backup ::
  "(content \<Rightarrow> error + string) \<Rightarrow> string \<Rightarrow> string \<Rightarrow> filesystem \<Rightarrow> bool \<times> filesystem" where
  "restore_from_backup pragma db_path backup_path fs =
     (let temp_backup = db_path @ ''.temp'' in
      case copy2 fs db_path temp_backup of
        Inl e \<Rightarrow> (False, fs)
      | Inr fs1 \<Rightarrow>
          (case restore_try pragma db_path backup_path temp_backup fs1 of
             Inr fs3 \<Rightarrow> (True, fs3)
           | Inl (e, fs2) \<Rightarrow> restore_except db_path temp_backup fs2))"

subsection \<open>cleanup_old_backups\<close>

text \<open>
  The backup directory as \<^verbatim>\<open>glob\<close> lists it: an entry per file, with its name, its
  modification time as the \<^verbatim>\<open>datetime\<close> that \<^verbatim>\<open>fromtimestamp\<close> makes of it (in
  microseconds, like \<open>now\<close>) and its content. Whether \<^verbatim>\<open>stat\<close> or \<^verbatim>\<open>unlink\<close> raises
  for a file is an input; an exception ends the loop and leaves the rest in place.
\<close>

record backup_file =
  file_name :: string
  st_mtime :: int
  file_content :: content

datatype file_fault = NoFault | StatRaises | UnlinkRaises

text \<open>The pattern \<^verbatim>\<open>backup_*.db\<close>.\<close>

definition glob_match :: "string \<Rightarrow> bool" where
  "glob_match n =
     (10 \<le> length n \<and> take 7 n = ''backup_'' \<and> drop (length n - 3) n = ''.db'')"

text \<open>\<^verbatim>\<open>(current_time - file_time).days\<close>: whole days, rounded down.\<close>

definition timedelta_days :: "int \<Rightarrow> int \<Rightarrow> int" where
  "timedelta_days current_time file_time = (current_time - file_time) div 86400000000"

fun cleanup_loop ::
  "(string \<Rightarrow> file_fault) \<Rightarrow> int \<Rightarrow> int \<Rightarrow> backup_file list \<Rightarrow> backup_file list" where
  "cleanup_loop fault current_time keep_days [] = []"
| "cleanup_loop fault current_time keep_days (f # fs) =
     (if \<not> glob_match (file_name f) then f # cleanup_loop fault current_time keep_days fs
      else if fault (file_name f) = StatRaises then f # fs
      else if keep_days < timedelta_days current_time (st_mtime f)
      then (if fault (file_name f) = UnlinkRaises then f # fs
            else cleanup_loop fault current_time keep_days fs)
      else f # cleanup_loop fault current_time keep_days fs)"

definition cleanup_old_backups ::
  "(string \<Rightarrow> file_fault) \<Rightarrow> int \<Rightarrow> int \<Rightarrow> backup_file list \<Rightarrow> backup_file list" where
  "cleanup_old_backups fault current_time keep_days dir =
     cleanup_loop fault current_time keep_days dir"

section \<open>Notions used in the properties\<close>

text \<open>
  The cached count of every row of \<^verbatim>\<open>users\<close> agrees with the number of the user's
  active timers.
\<close>

definition counts_consistent :: "database \<Rightarrow> bool" where
  "counts_consistent db =
     (\<forall>uid u. users db uid = Some u \<longrightarrow> active_timers u = active_count db uid)"

text \<open>The timer numbers of a user's rows, of every status, in creation order.\<close>

definition user_timer_numbers :: "database \<Rightarrow> int \<Rightarrow> int list" where
  "user_timer_numbers db uid = map timer_number (filter (\<lambda>t. user_id t = uid) (timers db))"



text \<open>
  The reading of "older than \<open>keep_days\<close> days": the modification time lies more than
  \<open>keep_days\<close> times 24 hours before the current time.
\<close>

definition older_than_days :: "int \<Rightarrow> int \<Rightarrow> backup_file \<Rightarrow> bool" where
  "older_than_days current_time keep_days f =
     (st_mtime f < current_time - keep_days * 86400000000)"

text \<open>A step that is a whole call, not the writing part of an interrupted one.\<close>

fun whole_call :: "storage \<times> int \<times> op \<Rightarrow> bool" where
  "whole_call (io, now, AddTimerInsert uid dur start_t end_t) = False"
| "whole_call (io, now, CheckExpiredUpdate expired_timers) = False"
| "whole_call (io, now, opr) = True"

text \<open>Every timer belongs to a user that has a row in \<^verbatim>\<open>users\<close>.\<close>

definition timers_have_users :: "database \<Rightarrow> bool" where
  "timers_have_users db = (user_id ` set (timers db) \<subseteq> dom (users db))"

text \<open>
  A history in which every \<^verbatim>\<open>add_timer\<close> is for a user that has a row in \<^verbatim>\<open>users\<close> when
  the timer is inserted.
\<close>

fun registered ::
  "(int \<Rightarrow> error + real) \<Rightarrow> database \<Rightarrow> (storage \<times> int \<times> op) list \<Rightarrow> bool" where
  "registered timestamp db [] = True"
| "registered timestamp db ((io, now, opr) # calls) =
     ((case opr of
         AddTimer uid dur \<Rightarrow> uid \<in> dom (users db)
       | AddTimerInsert uid dur start_t end_t \<Rightarrow> uid \<in> dom (users db)
       | _ \<Rightarrow> True)
      \<and> registered timestamp (step timestamp db (io, now, opr)) calls)"

section \<open>Properties of the store\<close>

subsection \<open>Auxiliary facts\<close>

lemmas store_eval =
  run_def create_tables_def add_user_def add_timer_def add_timer_select_def
  add_timer_insert_def utc_timestamp_def
  timedelta_hours_def datetime_add_def fits_int64_def active_count_def
  next_timer_id_def next_timer_number_def sql_max_def coalesce_def insert_timer_def
  update_active_timers_def update_all_active_timers_def delete_timer_def cancel_timer_def
  check_expired_timers_def check_expired_select_def check_expired_update_def
  select_expired_def mark_completed_def Let_def

lemma timers_update_active_timers [simp]:
  "timers (update_active_timers db uid) = timers db"
  by (simp add: update_active_timers_def split: option.splits)

lemma timers_update_all_active_timers [simp]:
  "timers (update_all_active_timers db) = timers db"
  by (simp add: update_all_active_timers_def)

lemma users_insert_timer [simp]:
  "users (insert_timer db uid s e dur) = users db"
  by (simp add: insert_timer_def)

lemma users_cancel_timer [simp]:
  "users (cancel_timer db uid num) = users db"
  by (simp add: cancel_timer_def)

lemma users_mark_completed [simp]:
  "users (mark_completed ids db) = users db"
  by (simp add: mark_completed_def)

lemma active_count_update_active_timers [simp]:
  "active_count (update_active_timers db uid) v = active_count db v"
  by (simp add: active_count_def)

lemma active_count_update_all_active_timers [simp]:
  "active_count (update_all_active_timers db) v = active_count db v"
  by (simp add: active_count_def)

text \<open>What the parts and the operations can return.\<close>

lemma add_timer_select_cases:
  "(\<exists>e. add_timer_select io db uid dur now = Inl e)
   \<or> (3 \<le> active_count db uid \<and> add_timer_select io db uid dur now = Inr None)
   \<or> (\<exists>end_t. active_count db uid < 3 \<and> io = StorageOk
         \<and> add_timer_select io db uid dur now = Inr (Some (now, end_t)))"
  by (cases io) (auto simp: add_timer_select_def split: sum.splits)

lemma add_timer_insert_cases:
  "(\<exists>e. add_timer_insert timestamp io db uid dur start_t end_t = Inl e)
   \<or> (\<exists>start_ts end_ts.
         add_timer_insert timestamp io db uid dur start_t end_t
           = Inr (next_timer_id db,
                  update_active_timers (insert_timer db uid start_ts end_ts dur) uid))"
  by (auto simp: add_timer_insert_def split: sum.splits)

lemma add_timer_cases:
  "add_timer timestamp io db uid dur now = (None, db)
   \<or> (\<exists>start_ts end_ts. active_count db uid < 3
         \<and> add_timer timestamp io db uid dur now
             = (Some (next_timer_id db),
                update_active_timers (insert_timer db uid start_ts end_ts dur) uid))"
proof -
  from add_timer_select_cases [of io db uid dur now] show ?thesis
  proof (elim disjE exE conjE)
    fix e assume "add_timer_select io db uid dur now = Inl e"
    then show ?thesis by (simp add: add_timer_def)
  next
    assume "add_timer_select io db uid dur now = Inr None"
    then show ?thesis by (simp add: add_timer_def)
  next
    fix end_t
    assume lt: "active_count db uid < 3"
      and sel: "add_timer_select io db uid dur now = Inr (Some (now, end_t))"
    from add_timer_insert_cases [of timestamp io db uid dur now end_t] show ?thesis
    proof (elim disjE exE)
      fix e assume "add_timer_insert timestamp io db uid dur now end_t = Inl e"
      with sel show ?thesis by (simp add: add_timer_def)
    next
      fix start_ts end_ts
      assume "add_timer_insert timestamp io db uid dur now end_t
           = Inr (next_timer_id db,
                  update_active_timers (insert_timer db uid start_ts end_ts dur) uid)"
      with sel have "add_timer timestamp io db uid dur now
             = (Some (next_timer_id db),
                update_active_timers (insert_timer db uid start_ts end_ts dur) uid)"
        by (simp add: add_timer_def)
      with lt show ?thesis by blast
    qed
  qed
qed

lemma delete_timer_cases:
  "delete_timer io db uid num = (False, db)
   \<or> delete_timer io db uid num = (True, update_active_timers (cancel_timer db uid num) uid)"
  by (simp add: delete_timer_def)

lemma check_expired_update_cases:
  "(\<exists>e. check_expired_update io db rows = Inl e)
   \<or> (rows = [] \<and> check_expired_update io db rows = Inr (rows, db))
   \<or> (rows \<noteq> [] \<and> check_expired_update io db rows
        = Inr (rows,
               update_all_active_timers
                 (mark_completed (map (\<lambda>r. timer_id (fst r)) rows) db)))"
  by (simp add: check_expired_update_def)

lemma check_expired_timers_cases:
  "check_expired_timers timestamp io db now = ([], db)
   \<or> (\<exists>current_time. timestamp now = Inr current_time
         \<and> select_expired db current_time \<noteq> []
         \<and> check_expired_timers timestamp io db now
            = (select_expired db current_time,
               update_all_active_timers
                 (mark_completed (map (\<lambda>r. timer_id (fst r))
                                    (select_expired db current_time)) db)))"
  by (cases io)
     (auto simp: check_expired_timers_def check_expired_select_def check_expired_update_def
        split: sum.splits)

text \<open>What a step does to the table of timers.\<close>

lemma step_timers:
  obtains (same) "timers (step timestamp db c) = timers db"
  | (insert) uid s e dur where
      "timers (step timestamp db c) = timers (insert_timer db uid s e dur)"
  | (cancel) uid num where
      "timers (step timestamp db c) = timers (cancel_timer db uid num)"
  | (mark) ids where
      "timers (step timestamp db c) = timers (mark_completed ids db)"
proof (cases c)
  case (fields io now opr)
  show ?thesis
  proof (cases opr)
    case (AddUser uid name)
    with fields have "timers (step timestamp db c) = timers db"
      by (simp add: add_user_def split: option.splits)
    then show ?thesis by (rule same)
  next
    case (AddTimer uid dur)
    from add_timer_cases [of timestamp io db uid dur now] show ?thesis
    proof (elim disjE exE conjE)
      assume "add_timer timestamp io db uid dur now = (None, db)"
      with AddTimer fields show ?thesis by (intro same) simp
    next
      fix start_ts end_ts
      assume "add_timer timestamp io db uid dur now
             = (Some (next_timer_id db),
                update_active_timers (insert_timer db uid start_ts end_ts dur) uid)"
      with AddTimer fields show ?thesis
        by (intro insert [of uid start_ts end_ts dur]) simp
    qed
  next
    case (DeleteTimer uid num)
    from delete_timer_cases [of io db uid num] show ?thesis
    proof
      assume "delete_timer io db uid num = (False, db)"
      with DeleteTimer fields show ?thesis by (intro same) simp
    next
      assume "delete_timer io db uid num
                = (True, update_active_timers (cancel_timer db uid num) uid)"
      with DeleteTimer fields show ?thesis by (intro cancel [of uid num]) simp
    qed
  next
    case CheckExpiredTimers
    from check_expired_timers_cases [of timestamp io db now] show ?thesis
    proof (elim disjE exE conjE)
      assume "check_expired_timers timestamp io db now = ([], db)"
      with CheckExpiredTimers fields show ?thesis by (intro same) simp
    next
      fix current_time
      assume "check_expired_timers timestamp io db now
            = (select_expired db current_time,
               update_all_active_timers
                 (mark_completed (map (\<lambda>r. timer_id (fst r))
                                    (select_expired db current_time)) db))"
      with CheckExpiredTimers fields show ?thesis
        by (intro mark [of "map (\<lambda>r. timer_id (fst r)) (select_expired db current_time)"])
           simp
    qed
  next
    case (AddTimerInsert uid dur start_t end_t)
    from add_timer_insert_cases [of timestamp io db uid dur start_t end_t] show ?thesis
    proof (elim disjE exE)
      fix e assume "add_timer_insert timestamp io db uid dur start_t end_t = Inl e"
      with AddTimerInsert fields show ?thesis by (intro same) simp
    next
      fix start_ts end_ts
      assume "add_timer_insert timestamp io db uid dur start_t end_t
           = Inr (next_timer_id db,
                  update_active_timers (insert_timer db uid start_ts end_ts dur) uid)"
      with AddTimerInsert fields show ?thesis
        by (intro insert [of uid start_ts end_ts dur]) simp
    qed
  next
    case (CheckExpiredUpdate rows)
    from check_expired_update_cases [of io db rows] show ?thesis
    proof (elim disjE exE conjE)
      fix e assume "check_expired_update io db rows = Inl e"
      with CheckExpiredUpdate fields show ?thesis by (intro same) simp
    next
      assume "check_expired_update io db rows = Inr (rows, db)"
      with CheckExpiredUpdate fields show ?thesis by (intro same) simp
    next
      assume "check_expired_update io db rows
        = Inr (rows,
               update_all_active_timers
                 (mark_completed (map (\<lambda>r. timer_id (fst r)) rows) db))"
      with CheckExpiredUpdate fields show ?thesis
        by (intro mark [of "map (\<lambda>r. timer_id (fst r)) rows"]) simp
    qed
  qed
qed

lemma active_count_insert_timer:
  "active_count (insert_timer db uid s e dur) v
     = active_count db v + (if v = uid then 1 else 0)"
  by (simp add: active_count_def insert_timer_def)

lemma length_filter_mono:
  "(\<And>x. x \<in> set xs \<Longrightarrow> P x \<Longrightarrow> Q x) \<Longrightarrow> length (filter P xs) \<le> length (filter Q xs)"
  by (induction xs) auto

lemma active_count_cancel_timer:
  "active_count (cancel_timer db uid num) v \<le> active_count db v"
  by (auto simp: cancel_timer_def active_count_def filter_map comp_def
      intro!: length_filter_mono)

lemma active_count_mark_completed:
  "active_count (mark_completed ids db) v \<le> active_count db v"
  by (auto simp: mark_completed_def active_count_def filter_map comp_def
      intro!: length_filter_mono)

lemma add_timer_failure:
  "fst (add_timer timestamp io db uid dur now) = None
     \<Longrightarrow> snd (add_timer timestamp io db uid dur now) = db"
  using add_timer_cases [of timestamp io db uid dur now] by auto

lemma add_timer_at_limit:
  "3 \<le> active_count db uid \<Longrightarrow> add_timer timestamp io db uid dur now = (None, db)"
  using add_timer_cases [of timestamp io db uid dur now] by auto

lemma add_timer_storage_fails:
  "add_timer timestamp StorageFails db uid dur now = (None, db)"
  by (simp add: add_timer_def add_timer_select_def split: sum.splits)

lemma active_count_add_timer:
  "active_count db u \<le> 3
     \<Longrightarrow> active_count (snd (add_timer timestamp io db uid dur now)) u \<le> 3"
  using add_timer_cases [of timestamp io db uid dur now]
  by (auto simp: active_count_insert_timer)

lemma active_count_delete_timer:
  "active_count (snd (delete_timer io db uid num)) u \<le> active_count db u"
  using delete_timer_cases [of io db uid num] active_count_cancel_timer [of db uid num u]
  by auto

lemma active_count_check_expired_timers:
  "active_count (snd (check_expired_timers timestamp io db now)) u \<le> active_count db u"
  using check_expired_timers_cases [of timestamp io db now]
  by (auto simp: active_count_mark_completed)

lemma active_count_add_user:
  "active_count (snd (add_user io db uid name)) u = active_count db u"
  by (auto simp: add_user_def active_count_def split: option.splits)

lemma load_config_max_timers:
  "load_config getenv = Inr cfg \<Longrightarrow> max_timers cfg = 3"
  by (auto simp: load_config_def Config_def split: option.splits if_splits)

subsection \<open>The limit on active timers\<close>

text \<open>
  Along a history of whole calls, none running between the two parts of another, a
  user's number of active timers stays within the literal 3 of \<^verbatim>\<open>add_timer\<close>.
\<close>

lemma active_count_whole_call:
  assumes "whole_call c" and "active_count db u \<le> 3"
  shows "active_count (step timestamp db c) u \<le> 3"
proof (cases c)
  case (fields io now opr)
  show ?thesis
  proof (cases opr)
    case (AddUser uid name)
    with fields assms show ?thesis by (simp add: active_count_add_user)
  next
    case (AddTimer uid dur)
    with fields assms show ?thesis by (simp add: active_count_add_timer)
  next
    case (DeleteTimer uid num)
    with fields assms active_count_delete_timer [of io db uid num u] show ?thesis by simp
  next
    case CheckExpiredTimers
    with fields assms active_count_check_expired_timers [of timestamp io db now u]
    show ?thesis by simp
  next
    case (AddTimerInsert uid dur start_t end_t)
    with fields assms show ?thesis by simp
  next
    case (CheckExpiredUpdate rows)
    with fields assms show ?thesis by simp
  qed
qed

lemma active_count_whole_calls:
  "\<forall>c \<in> set calls. whole_call c \<Longrightarrow> active_count db u \<le> 3
     \<Longrightarrow> active_count (run timestamp db calls) u \<le> 3"
  unfolding run_def
  by (induction calls arbitrary: db) (simp_all add: active_count_whole_call)

text \<open>
  Claim C1. The number of a user's active timers can exceed \<open>max_timers\<close>. The
  \<^verbatim>\<open>SELECT COUNT\<close> of \<^verbatim>\<open>add_timer\<close> and its \<^verbatim>\<open>INSERT\<close> are not one transaction: four
  calls for user 1 that all read the count before any of them inserts all go on, and
  the user has four active timers, with the configuration of \<^verbatim>\<open>load_config\<close>, whose
  \<open>max_timers\<close> is 3. And the limit read is the literal 3: with \<open>max_timers = 2\<close> three
  calls one after the other leave three active timers.
\<close>

theorem add_timer_exceeds_max_timers:
  "load_config [''BOT_TOKEN'' \<mapsto> ''token''] = Inr (Config ''token'')
   \<and> max_timers (Config ''token'') = 3
   \<and> add_timer_select StorageOk
        (run utc_timestamp create_tables [(StorageOk, 63900000000000000, AddUser 1 ''alice'')]) 1 1 63900000001000000
       = Inr (Some (63900000001000000, 63900003601000000))
   \<and> add_timer_select StorageOk
        (run utc_timestamp create_tables [(StorageOk, 63900000000000000, AddUser 1 ''alice'')]) 1 1 63900000002000000
       = Inr (Some (63900000002000000, 63900003602000000))
   \<and> add_timer_select StorageOk
        (run utc_timestamp create_tables [(StorageOk, 63900000000000000, AddUser 1 ''alice'')]) 1 1 63900000003000000
       = Inr (Some (63900000003000000, 63900003603000000))
   \<and> add_timer_select StorageOk
        (run utc_timestamp create_tables [(StorageOk, 63900000000000000, AddUser 1 ''alice'')]) 1 1 63900000004000000
       = Inr (Some (63900000004000000, 63900003604000000))
   \<and> active_count
        (run utc_timestamp
           (run utc_timestamp create_tables [(StorageOk, 63900000000000000, AddUser 1 ''alice'')])
          [(StorageOk, 63900000005000000, AddTimerInsert 1 1 63900000001000000 63900003601000000),
           (StorageOk, 63900000006000000, AddTimerInsert 1 1 63900000002000000 63900003602000000),
           (StorageOk, 63900000007000000, AddTimerInsert 1 1 63900000003000000 63900003603000000),
           (StorageOk, 63900000008000000, AddTimerInsert 1 1 63900000004000000 63900003604000000)]) 1 = 4
   \<and> max_timers ((Config ''token'')\<lparr>max_timers := 2\<rparr>) = 2
   \<and> active_count
        (run utc_timestamp create_tables
          [(StorageOk, 63900000000000000, AddUser 1 ''alice''),
           (StorageOk, 63900000001000000, AddTimer 1 1),
           (StorageOk, 63900000002000000, AddTimer 1 2),
           (StorageOk, 63900000003000000, AddTimer 1 3)]) 1 = 3"
  by (simp add: load_config_def Config_def store_eval)

subsection \<open>What \<^verbatim>\<open>add_timer\<close> and \<^verbatim>\<open>delete_timer\<close> return\<close>

text \<open>
  Claim C10. \<^verbatim>\<open>add_timer\<close> returns \<^verbatim>\<open>None\<close>, with the database as it was, when the
  storage layer fails, and returns the same when the user has reached the limit and the
  storage layer works; the handler \<^verbatim>\<open>cmd_timer\<close> answers a storage failure with the
  limit message.
\<close>

theorem add_timer_none_for_limit_and_failure:
  "add_timer timestamp StorageFails db uid dur now = (None, db)
   \<and> (3 \<le> active_count db uid \<longrightarrow> add_timer timestamp StorageOk db uid dur now = (None, db))
   \<and> (min_duration cfg \<le> dur \<and> dur \<le> max_duration cfg \<longrightarrow>
        cmd_timer cfg timestamp StorageFails db uid dur now = (LimitReached (max_timers cfg), db))"
  by (simp add: add_timer_storage_fails add_timer_at_limit cmd_timer_def)

theorem add_timer_none_for_limit_and_failure_witness:
  "add_timer utc_timestamp StorageFails create_tables 1 5 63900000000000000 = (None, create_tables)
   \<and> 3 \<le> active_count
             (run utc_timestamp create_tables
                [(StorageOk, 63900000000000000, AddTimer 1 1),
                 (StorageOk, 63900000000000001, AddTimer 1 2),
                 (StorageOk, 63900000000000002, AddTimer 1 3)]) 1
   \<and> add_timer utc_timestamp StorageOk
         (run utc_timestamp create_tables
            [(StorageOk, 63900000000000000, AddTimer 1 1),
             (StorageOk, 63900000000000001, AddTimer 1 2),
             (StorageOk, 63900000000000002, AddTimer 1 3)]) 1 5 63900000000000003
       = (None,
          run utc_timestamp create_tables
            [(StorageOk, 63900000000000000, AddTimer 1 1),
             (StorageOk, 63900000000000001, AddTimer 1 2),
             (StorageOk, 63900000000000002, AddTimer 1 3)])
   \<and> min_duration (Config ''token'') \<le> 5 \<and> 5 \<le> max_duration (Config ''token'')
   \<and> cmd_timer (Config ''token'') utc_timestamp StorageFails create_tables 1 5 63900000000000000
       = (LimitReached 3, create_tables)"
proof -
  have at_limit: "3 \<le> active_count
             (run utc_timestamp create_tables
                [(StorageOk, 63900000000000000, AddTimer 1 1),
                 (StorageOk, 63900000000000001, AddTimer 1 2),
                 (StorageOk, 63900000000000002, AddTimer 1 3)]) 1"
    by (simp add: store_eval)
  have range: "min_duration (Config ''token'') \<le> 5 \<and> 5 \<le> max_duration (Config ''token'')"
    by (simp add: Config_def)
  have limit: "max_timers (Config ''token'') = 3"
    by (simp add: Config_def)
  from add_timer_none_for_limit_and_failure
         [of utc_timestamp create_tables 1 5 63900000000000000 "Config ''token''"]
       add_timer_none_for_limit_and_failure
         [of utc_timestamp "run utc_timestamp create_tables
                [(StorageOk, 63900000000000000, AddTimer 1 1),
                 (StorageOk, 63900000000000001, AddTimer 1 2),
                 (StorageOk, 63900000000000002, AddTimer 1 3)]" 1 5 63900000000000003]
       at_limit range limit
  show ?thesis by simp
qed

text \<open>
  Claim C7. The limit \<^verbatim>\<open>add_timer\<close> enforces is the literal 3, not \<open>max_timers\<close> of the
  configuration. With \<open>max_timers = 5\<close> a user with three active timers is below the
  configured limit, yet \<^verbatim>\<open>add_timer\<close> returns \<^verbatim>\<open>None\<close> and \<^verbatim>\<open>cmd_timer\<close> answers that
  the limit of 5 is reached; with \<open>max_timers = 2\<close> a third timer is accepted.
\<close>

theorem add_timer_limit_is_not_max_timers:
  "active_count
     (run utc_timestamp create_tables
        [(StorageOk, 63900000000000000, AddTimer 1 1),
         (StorageOk, 63900000000000001, AddTimer 1 2),
         (StorageOk, 63900000000000002, AddTimer 1 3)]) 1
     < max_timers ((Config ''token'')\<lparr>max_timers := 5\<rparr>)
   \<and> add_timer utc_timestamp StorageOk
         (run utc_timestamp create_tables
            [(StorageOk, 63900000000000000, AddTimer 1 1),
             (StorageOk, 63900000000000001, AddTimer 1 2),
             (StorageOk, 63900000000000002, AddTimer 1 3)]) 1 1 63900000000000003
       = (None,
          run utc_timestamp create_tables
            [(StorageOk, 63900000000000000, AddTimer 1 1),
             (StorageOk, 63900000000000001, AddTimer 1 2),
             (StorageOk, 63900000000000002, AddTimer 1 3)])
   \<and> fst (cmd_timer ((Config ''token'')\<lparr>max_timers := 5\<rparr>) utc_timestamp StorageOk
         (run utc_timestamp create_tables
            [(StorageOk, 63900000000000000, AddTimer 1 1),
             (StorageOk, 63900000000000001, AddTimer 1 2),
             (StorageOk, 63900000000000002, AddTimer 1 3)]) 1 1 63900000000000003)
       = LimitReached 5
   \<and> max_timers ((Config ''token'')\<lparr>max_timers := 2\<rparr>)
       \<le> active_count
            (run utc_timestamp create_tables
               [(StorageOk, 63900000000000000, AddTimer 1 1),
                (StorageOk, 63900000000000001, AddTimer 1 2)]) 1
   \<and> fst (add_timer utc_timestamp StorageOk
         (run utc_timestamp create_tables
            [(StorageOk, 63900000000000000, AddTimer 1 1),
             (StorageOk, 63900000000000001, AddTimer 1 2)]) 1 3 63900000000000002)
       = Some 3"
  by (simp add: Config_def cmd_timer_def store_eval)

text \<open>
  What \<^verbatim>\<open>delete_timer\<close> returns depends on the exceptions only, not on the rows; what
  it changes are the active rows with the user's id and the number.
\<close>

lemma delete_timer_result:
  "fst (delete_timer io db uid num) = (io = StorageOk \<and> fits_int64 uid \<and> fits_int64 num)"
  by (cases io) (simp_all add: delete_timer_def)

lemma delete_timer_rows:
  "timers (snd (delete_timer io db uid num)) = timers db
   \<or> timers (snd (delete_timer io db uid num))
       = map (\<lambda>t. if user_id t = uid \<and> timer_number t = num \<and> status t = Active
                  then t\<lparr>status := Cancelled\<rparr> else t) (timers db)"
  by (simp add: delete_timer_def cancel_timer_def)

text \<open>
  Claim C5. \<^verbatim>\<open>delete_timer\<close> returns \<^verbatim>\<open>True\<close> whenever no exception is raised, also
  when no row matches: user 1 has the single timer number 1; deleting the number 5
  changes nothing and returns \<^verbatim>\<open>True\<close>, and so does deleting number 1 a second time.
\<close>

theorem delete_timer_true_without_row:
  "delete_timer StorageOk
     (run utc_timestamp create_tables
        [(StorageOk, 63900000000000000, AddUser 1 ''alice''),
         (StorageOk, 63900000000000001, AddTimer 1 1)]) 1 5
     = (True,
        run utc_timestamp create_tables
          [(StorageOk, 63900000000000000, AddUser 1 ''alice''),
           (StorageOk, 63900000000000001, AddTimer 1 1)])
   \<and> delete_timer StorageOk
       (run utc_timestamp create_tables
          [(StorageOk, 63900000000000000, AddUser 1 ''alice''),
           (StorageOk, 63900000000000001, AddTimer 1 1),
           (StorageOk, 63900000000000002, DeleteTimer 1 1)]) 1 1
     = (True,
        run utc_timestamp create_tables
          [(StorageOk, 63900000000000000, AddUser 1 ''alice''),
           (StorageOk, 63900000000000001, AddTimer 1 1),
           (StorageOk, 63900000000000002, DeleteTimer 1 1)])"
  by (simp add: store_eval)

subsection \<open>The cached count of active timers\<close>

lemma counts_consistent_update_all:
  "counts_consistent (update_all_active_timers db)"
  unfolding counts_consistent_def
proof (intro allI impI)
  fix v u
  assume "users (update_all_active_timers db) v = Some u"
  then have "map_option (\<lambda>u. u\<lparr>active_timers := active_count db v\<rparr>) (users db v) = Some u"
    by (simp add: update_all_active_timers_def)
  then obtain u0 where "u = u0\<lparr>active_timers := active_count db v\<rparr>"
    by (cases "users db v") auto
  then show "active_timers u = active_count (update_all_active_timers db) v"
    by simp
qed

lemma counts_consistent_update:
  assumes "\<And>v u. v \<noteq> uid \<Longrightarrow> users db v = Some u \<Longrightarrow> active_timers u = active_count db v"
  shows "counts_consistent (update_active_timers db uid)"
  unfolding counts_consistent_def
proof (intro allI impI)
  fix v u
  assume u: "users (update_active_timers db uid) v = Some u"
  show "active_timers u = active_count (update_active_timers db uid) v"
  proof (cases "v = uid")
    case True
    with u have "active_timers u = active_count db uid"
      by (auto simp: update_active_timers_def split: option.splits)
    with True show ?thesis by simp
  next
    case False
    with u have "users db v = Some u"
      by (auto simp: update_active_timers_def split: option.splits)
    with False assms show ?thesis by simp
  qed
qed

lemma length_filter_map_cong:
  "(\<And>t. t \<in> set ts \<Longrightarrow> P (f t) = Q t)
     \<Longrightarrow> length (filter P (map f ts)) = length (filter Q ts)"
  by (induction ts) auto

lemma active_count_cancel_other:
  assumes "v \<noteq> uid"
  shows "active_count (cancel_timer db uid num) v = active_count db v"
proof -
  have "length (filter (\<lambda>t. user_id t = v \<and> status t = Active)
          (map (\<lambda>t. if user_id t = uid \<and> timer_number t = num \<and> status t = Active
                     then t\<lparr>status := Cancelled\<rparr> else t) (timers db)))
        = length (filter (\<lambda>t. user_id t = v \<and> status t = Active) (timers db))"
    using assms by (intro length_filter_map_cong) auto
  then show ?thesis by (simp add: active_count_def cancel_timer_def)
qed

lemma counts_consistent_insert:
  assumes "counts_consistent db"
  shows "counts_consistent (update_active_timers (insert_timer db uid s e dur) uid)"
  using assms
  by (intro counts_consistent_update)
     (simp add: active_count_insert_timer counts_consistent_def)

lemma counts_consistent_cancel:
  assumes "counts_consistent db"
  shows "counts_consistent (update_active_timers (cancel_timer db uid num) uid)"
  using assms
  by (intro counts_consistent_update) (simp add: active_count_cancel_other counts_consistent_def)

lemma counts_consistent_add_user:
  assumes "counts_consistent db" and "timers_have_users db"
  shows "counts_consistent (snd (add_user io db uid name))"
proof (cases "users db uid")
  case (Some u)
  with assms(1) show ?thesis by (simp add: add_user_def)
next
  case None
  with assms(2) have "filter (\<lambda>t. user_id t = uid \<and> status t = Active) (timers db) = []"
    by (auto simp: timers_have_users_def filter_empty_conv)
  then have "active_count db uid = 0"
    by (simp add: active_count_def)
  with None assms(1) show ?thesis
    by (auto simp: add_user_def counts_consistent_def active_count_def)
qed

text \<open>A step of a history keeps the stored counts right when the timers have users.\<close>

lemma counts_consistent_step:
  assumes "counts_consistent db" and "timers_have_users db"
  shows "counts_consistent (step timestamp db c)"
proof (cases c)
  case (fields io now opr)
  show ?thesis
  proof (cases opr)
    case (AddUser uid name)
    with fields assms show ?thesis by (simp add: counts_consistent_add_user)
  next
    case (AddTimer uid dur)
    with fields assms(1) add_timer_cases [of timestamp io db uid dur now] show ?thesis
      by (auto simp: counts_consistent_insert)
  next
    case (DeleteTimer uid num)
    with fields assms(1) delete_timer_cases [of io db uid num] show ?thesis
      by (auto simp: counts_consistent_cancel)
  next
    case CheckExpiredTimers
    with fields assms(1) check_expired_timers_cases [of timestamp io db now] show ?thesis
      by (auto simp: counts_consistent_update_all)
  next
    case (AddTimerInsert uid dur start_t end_t)
    with fields assms(1) add_timer_insert_cases [of timestamp io db uid dur start_t end_t]
    show ?thesis by (auto simp: counts_consistent_insert)
  next
    case (CheckExpiredUpdate rows)
    with fields assms(1) check_expired_update_cases [of io db rows] show ?thesis
      by (auto simp: counts_consistent_update_all)
  qed
qed

lemma dom_users_update_active_timers [simp]:
  "dom (users (update_active_timers db uid)) = dom (users db)"
  by (auto simp: update_active_timers_def split: option.splits if_splits)

lemma dom_users_update_all_active_timers [simp]:
  "dom (users (update_all_active_timers db)) = dom (users db)"
  by (auto simp: update_all_active_timers_def dom_def)

lemma user_ids_insert_timer:
  "user_id ` set (timers (insert_timer db uid s e dur)) = insert uid (user_id ` set (timers db))"
  by (simp add: insert_timer_def)

lemma map_user_id_cong:
  "(\<And>t. t \<in> set ts \<Longrightarrow> user_id (f t) = user_id t) \<Longrightarrow> map user_id (map f ts) = map user_id ts"
  by (induction ts) auto

lemma user_ids_cancel_timer:
  "user_id ` set (timers (cancel_timer db uid num)) = user_id ` set (timers db)"
proof -
  have "map user_id (timers (cancel_timer db uid num)) = map user_id (timers db)"
    unfolding cancel_timer_def by (simp del: map_map, rule map_user_id_cong) simp
  then have "set (map user_id (timers (cancel_timer db uid num))) = set (map user_id (timers db))"
    by (rule arg_cong)
  then show ?thesis by (simp only: set_map)
qed

lemma user_ids_mark_completed:
  "user_id ` set (timers (mark_completed ids db)) = user_id ` set (timers db)"
proof -
  have "map user_id (timers (mark_completed ids db)) = map user_id (timers db)"
    unfolding mark_completed_def by (simp del: map_map, rule map_user_id_cong) simp
  then have "set (map user_id (timers (mark_completed ids db))) = set (map user_id (timers db))"
    by (rule arg_cong)
  then show ?thesis by (simp only: set_map)
qed

lemma timers_have_users_insert:
  "timers_have_users db \<Longrightarrow> uid \<in> dom (users db)
     \<Longrightarrow> timers_have_users (update_active_timers (insert_timer db uid s e dur) uid)"
  by (simp add: timers_have_users_def user_ids_insert_timer)

lemma timers_have_users_cancel:
  "timers_have_users db
     \<Longrightarrow> timers_have_users (update_active_timers (cancel_timer db uid num) uid)"
  by (simp add: timers_have_users_def user_ids_cancel_timer)

lemma timers_have_users_mark:
  "timers_have_users db
     \<Longrightarrow> timers_have_users (update_all_active_timers (mark_completed ids db))"
  by (simp add: timers_have_users_def user_ids_mark_completed)

lemma timers_have_users_add_user:
  "timers_have_users db \<Longrightarrow> timers_have_users (snd (add_user io db uid name))"
  by (auto simp: add_user_def timers_have_users_def split: option.splits)

lemma timers_have_users_step:
  assumes "timers_have_users db"
    and "registered timestamp db (c # calls)"
  shows "timers_have_users (step timestamp db c)"
proof (cases c)
  case (fields io now opr)
  show ?thesis
  proof (cases opr)
    case (AddUser uid name)
    with fields assms(1) show ?thesis
      by (simp add: timers_have_users_add_user)
  next
    case (AddTimer uid dur)
    with fields assms(2) have "uid \<in> dom (users db)" by simp
    with assms(1) have "timers_have_users
            (update_active_timers (insert_timer db uid s e dur) uid)" for s e
      by (rule timers_have_users_insert)
    with AddTimer fields assms(1) add_timer_cases [of timestamp io db uid dur now]
    show ?thesis by auto
  next
    case (DeleteTimer uid num)
    with fields assms(1) delete_timer_cases [of io db uid num] show ?thesis
      by (auto simp: timers_have_users_cancel)
  next
    case CheckExpiredTimers
    with fields assms(1) check_expired_timers_cases [of timestamp io db now] show ?thesis
      by (auto simp: timers_have_users_mark)
  next
    case (AddTimerInsert uid dur start_t end_t)
    with fields assms(2) have "uid \<in> dom (users db)" by simp
    with assms(1) have "timers_have_users
            (update_active_timers (insert_timer db uid s e dur) uid)" for s e
      by (rule timers_have_users_insert)
    with AddTimerInsert fields assms(1)
      add_timer_insert_cases [of timestamp io db uid dur start_t end_t]
    show ?thesis by auto
  next
    case (CheckExpiredUpdate rows)
    with fields assms(1) check_expired_update_cases [of io db rows] show ?thesis
      by (auto simp: timers_have_users_mark)
  qed
qed

text \<open>
  Where timers are only added for users that have a row, every stored count agrees
  with the true count after every step, also when calls overlap.
\<close>

lemma counts_consistent_registered:
  assumes "counts_consistent db" and "timers_have_users db"
    and "registered timestamp db calls"
  shows "counts_consistent (run timestamp db calls)"
  using assms unfolding run_def
proof (induction calls arbitrary: db)
  case Nil
  then show ?case by simp
next
  case (Cons c calls)
  from Cons.prems have "counts_consistent (step timestamp db c)"
    by (simp add: counts_consistent_step)
  moreover from Cons.prems have "timers_have_users (step timestamp db c)"
    by (simp add: timers_have_users_step)
  moreover from Cons.prems have "registered timestamp (step timestamp db c) calls"
    by (cases c) simp
  ultimately show ?case using Cons.IH by simp
qed

lemma counts_consistent_from_create_tables:
  "registered timestamp create_tables calls
     \<Longrightarrow> counts_consistent (run timestamp create_tables calls)"
  by (rule counts_consistent_registered)
     (simp_all add: counts_consistent_def timers_have_users_def create_tables_def)

text \<open>
  Claim C2. The stored count does not always equal the true count after a committed
  operation. \<^verbatim>\<open>add_timer\<close> inserts a timer for user 7, who has no row in \<^verbatim>\<open>users\<close>: the
  table declares the foreign key, nothing enforces it. \<^verbatim>\<open>add_user\<close> then inserts the row
  of user 7 with the default count 0, and the committed \<^verbatim>\<open>add_timer\<close> of user 8 recounts
  user 8 only: the row of user 7 says 0 while user 7 has one active timer.
\<close>

theorem active_timers_stale_after_commit:
  "fst (add_timer utc_timestamp StorageOk
          (run utc_timestamp create_tables
             [(StorageOk, 63900000000000000, AddTimer 7 1),
              (StorageOk, 63900000000000001, AddUser 7 ''bob''),
              (StorageOk, 63900000000000002, AddUser 8 ''carol'')])
          8 1 63900000000000003) = Some 2
   \<and> map_option active_timers
        (users (snd (add_timer utc_timestamp StorageOk
          (run utc_timestamp create_tables
             [(StorageOk, 63900000000000000, AddTimer 7 1),
              (StorageOk, 63900000000000001, AddUser 7 ''bob''),
              (StorageOk, 63900000000000002, AddUser 8 ''carol'')])
          8 1 63900000000000003)) 7) = Some 0
   \<and> active_count
        (snd (add_timer utc_timestamp StorageOk
          (run utc_timestamp create_tables
             [(StorageOk, 63900000000000000, AddTimer 7 1),
              (StorageOk, 63900000000000001, AddUser 7 ''bob''),
              (StorageOk, 63900000000000002, AddUser 8 ''carol'')])
          8 1 63900000000000003)) 7 = 1"
  by (simp add: store_eval)

text \<open>So the state after that commit is not one in which the counts agree.\<close>

lemma stale_count_not_consistent:
  "\<not> counts_consistent
        (snd (add_timer utc_timestamp StorageOk
          (run utc_timestamp create_tables
             [(StorageOk, 63900000000000000, AddTimer 7 1),
              (StorageOk, 63900000000000001, AddUser 7 ''bob''),
              (StorageOk, 63900000000000002, AddUser 8 ''carol'')])
          8 1 63900000000000003))"
proof
  let ?db = "(snd (add_timer utc_timestamp StorageOk
          (run utc_timestamp create_tables
             [(StorageOk, 63900000000000000, AddTimer 7 1),
              (StorageOk, 63900000000000001, AddUser 7 ''bob''),
              (StorageOk, 63900000000000002, AddUser 8 ''carol'')])
          8 1 63900000000000003))"
  assume "counts_consistent ?db"
  moreover have "users ?db 7 = Some \<lparr>username = ''bob'', active_timers = 0\<rparr>"
    by (simp add: store_eval)
  ultimately have "active_timers \<lparr>username = ''bob'', active_timers = 0\<rparr> = active_count ?db 7"
    unfolding counts_consistent_def by blast
  moreover have "active_count ?db 7 = 1"
    by (simp add: store_eval)
  ultimately show False by simp
qed

subsection \<open>Timer numbers\<close>

lemma sql_max_Max:
  "sql_max xs = (if xs = [] then None else Some (Max (set xs)))"
proof (cases xs)
  case Nil
  then show ?thesis by (simp add: sql_max_def)
next
  case (Cons y ys)
  have "Max (set (y # ys)) = fold max ys y" by (rule Max.set_eq_fold)
  with Cons show ?thesis by (simp add: sql_max_def)
qed

lemma next_timer_number_eq:
  "next_timer_number db uid =
     (if user_timer_numbers db uid = [] then 1 else Max (set (user_timer_numbers db uid)) + 1)"
  by (simp add: next_timer_number_def user_timer_numbers_def sql_max_Max coalesce_def)

lemma next_timer_number_greater:
  "n \<in> set (user_timer_numbers db uid) \<Longrightarrow> n < next_timer_number db uid"
proof -
  assume n: "n \<in> set (user_timer_numbers db uid)"
  then have "n \<le> Max (set (user_timer_numbers db uid))" by simp
  with n show ?thesis by (auto simp: next_timer_number_eq)
qed


lemma user_timer_numbers_insert_timer:
  "user_timer_numbers (insert_timer db uid s e dur) v =
     (if v = uid then user_timer_numbers db v @ [next_timer_number db uid]
      else user_timer_numbers db v)"
  by (simp add: user_timer_numbers_def insert_timer_def)

lemma user_timer_numbers_cong:
  "timers db' = timers db \<Longrightarrow> user_timer_numbers db' v = user_timer_numbers db v"
  by (simp add: user_timer_numbers_def)

lemma numbers_map:
  "(\<And>t. t \<in> set ts \<Longrightarrow> user_id (f t) = user_id t \<and> timer_number (f t) = timer_number t)
     \<Longrightarrow> map timer_number (filter (\<lambda>t. user_id t = v) (map f ts))
         = map timer_number (filter (\<lambda>t. user_id t = v) ts)"
  by (induction ts) auto

lemma user_timer_numbers_cancel_timer:
  "user_timer_numbers (cancel_timer db uid num) v = user_timer_numbers db v"
  unfolding user_timer_numbers_def cancel_timer_def
  using numbers_map [of "timers db"
          "\<lambda>t. if user_id t = uid \<and> timer_number t = num \<and> status t = Active
               then t\<lparr>status := Cancelled\<rparr> else t" v]
  by simp

lemma user_timer_numbers_mark_completed:
  "user_timer_numbers (mark_completed ids db) v = user_timer_numbers db v"
  unfolding user_timer_numbers_def mark_completed_def
  using numbers_map [of "timers db"
          "\<lambda>t. if timer_id t \<in> set ids
               then t\<lparr>status := Completed, notified := True\<rparr> else t" v]
  by simp

lemma user_timer_numbers_step:
  "user_timer_numbers (step timestamp db c) v = user_timer_numbers db v
   \<or> (\<exists>n. user_timer_numbers (step timestamp db c) v = user_timer_numbers db v @ [n]
          \<and> (\<forall>m \<in> set (user_timer_numbers db v). m < n))"
proof (cases rule: step_timers [of timestamp db c])
  case same
  then have "user_timer_numbers (step timestamp db c) v = user_timer_numbers db v"
    by (rule user_timer_numbers_cong)
  then show ?thesis by simp
next
  case (insert uid s e dur)
  then have "user_timer_numbers (step timestamp db c) v
               = user_timer_numbers (insert_timer db uid s e dur) v"
    by (rule user_timer_numbers_cong)
  then show ?thesis
    by (auto simp: user_timer_numbers_insert_timer next_timer_number_greater)
next
  case (cancel uid num)
  then have "user_timer_numbers (step timestamp db c) v
               = user_timer_numbers (cancel_timer db uid num) v"
    by (rule user_timer_numbers_cong)
  then show ?thesis by (simp add: user_timer_numbers_cancel_timer)
next
  case (mark ids)
  then have "user_timer_numbers (step timestamp db c) v
               = user_timer_numbers (mark_completed ids db) v"
    by (rule user_timer_numbers_cong)
  then show ?thesis by (simp add: user_timer_numbers_mark_completed)
qed

lemma increasing_step:
  "sorted_wrt (<) (user_timer_numbers db v) \<Longrightarrow> sorted_wrt (<) (user_timer_numbers (step timestamp db c) v)"
  using user_timer_numbers_step [of timestamp db c v]
  by (auto simp: sorted_wrt_append)

lemma increasing_run:
  "sorted_wrt (<) (user_timer_numbers db v) \<Longrightarrow> sorted_wrt (<) (user_timer_numbers (run timestamp db calls) v)"
  unfolding run_def
  by (induction calls arbitrary: db) (simp_all add: increasing_step)

lemma numbers_kept_run:
  "\<exists>ns. user_timer_numbers (run timestamp db calls) v = user_timer_numbers db v @ ns"
  unfolding run_def
proof (induction calls arbitrary: db)
  case Nil
  show ?case by simp
next
  case (Cons c calls)
  from Cons [of "step timestamp db c"] obtain ns where
    "user_timer_numbers (foldl (step timestamp) (step timestamp db c) calls) v = user_timer_numbers (step timestamp db c) v @ ns"
    by blast
  with user_timer_numbers_step [of timestamp db c v] show ?case by auto
qed

lemma increasing_create_tables:
  "sorted_wrt (<) (user_timer_numbers create_tables v)"
  by (simp add: user_timer_numbers_def create_tables_def)

lemma add_timer_new_row:
  assumes "fst (add_timer timestamp io db uid dur now) = Some tid"
  shows "\<exists>row. timers (snd (add_timer timestamp io db uid dur now)) = timers db @ [row]
           \<and> timer_id row = tid \<and> user_id row = uid \<and> status row = Active
           \<and> \<not> notified row \<and> timer_number row = next_timer_number db uid"
  using add_timer_cases [of timestamp io db uid dur now] assms
  by (auto simp: insert_timer_def)

text \<open>
  Claim C4. A successful \<^verbatim>\<open>add_timer\<close> appends one row whose \<open>timer_number\<close> is 1 when
  the user has no timer yet and otherwise one more than the largest number among all of
  the user's timers, whatever their status; it exceeds every number the user has. Along
  every history, of whole calls and of writing parts of calls that overlap, the numbers
  a user's timers already have stay as they are (rows are cancelled or completed, never
  removed), and the numbers of a user's timers in creation order, once strictly
  increasing, stay strictly increasing; from the empty tables they are strictly
  increasing and so pairwise distinct.
\<close>

theorem timer_numbers_strictly_increasing:
  "(\<forall>tid. fst (add_timer timestamp io db uid dur now) = Some tid \<longrightarrow>
      (\<exists>row. timers (snd (add_timer timestamp io db uid dur now)) = timers db @ [row]
         \<and> timer_id row = tid \<and> user_id row = uid \<and> status row = Active
         \<and> timer_number row =
             (if user_timer_numbers db uid = [] then 1
              else Max (set (user_timer_numbers db uid)) + 1)
         \<and> (\<forall>n \<in> set (user_timer_numbers db uid). n < timer_number row)))
   \<and> (\<exists>ns. user_timer_numbers (run timestamp db calls) u = user_timer_numbers db u @ ns)
   \<and> (sorted_wrt (<) (user_timer_numbers db u) \<longrightarrow>
        sorted_wrt (<) (user_timer_numbers (run timestamp db calls) u))
   \<and> sorted_wrt (<) (user_timer_numbers (run utc_timestamp create_tables calls) u)
   \<and> distinct (user_timer_numbers (run utc_timestamp create_tables calls) u)"
proof (intro conjI allI impI)
  fix tid
  assume "fst (add_timer timestamp io db uid dur now) = Some tid"
  from add_timer_new_row [OF this] obtain row where
    row: "timers (snd (add_timer timestamp io db uid dur now)) = timers db @ [row]"
      "timer_id row = tid" "user_id row = uid" "status row = Active"
      "timer_number row = next_timer_number db uid"
    by blast
  have "\<forall>n \<in> set (user_timer_numbers db uid). n < timer_number row"
    using row(5) by (simp add: next_timer_number_greater)
  with row show "\<exists>row. timers (snd (add_timer timestamp io db uid dur now)) = timers db @ [row]
         \<and> timer_id row = tid \<and> user_id row = uid \<and> status row = Active
         \<and> timer_number row =
             (if user_timer_numbers db uid = [] then 1
              else Max (set (user_timer_numbers db uid)) + 1)
         \<and> (\<forall>n \<in> set (user_timer_numbers db uid). n < timer_number row)"
    unfolding next_timer_number_eq by blast
next
  show "\<exists>ns. user_timer_numbers (run timestamp db calls) u = user_timer_numbers db u @ ns"
    by (rule numbers_kept_run)
next
  assume "sorted_wrt (<) (user_timer_numbers db u)"
  then show "sorted_wrt (<) (user_timer_numbers (run timestamp db calls) u)"
    by (rule increasing_run)
next
  show inc: "sorted_wrt (<) (user_timer_numbers (run utc_timestamp create_tables calls) u)"
    by (rule increasing_run [OF increasing_create_tables])
  then show "distinct (user_timer_numbers (run utc_timestamp create_tables calls) u)"
    by (simp add: strict_sorted_iff)
qed

theorem timer_numbers_strictly_increasing_witness:
  "user_timer_numbers
     (run utc_timestamp create_tables
        [(StorageOk, 63900000000000000, AddUser 1 ''alice''),
         (StorageOk, 63900000000000001, AddTimer 1 1),
         (StorageOk, 63900000000000002, AddTimer 1 2),
         (StorageOk, 63900000000000003, AddTimer 1 3),
         (StorageOk, 63900000000000004, DeleteTimer 1 2)]) 1 = [1, 2, 3]
   \<and> fst (add_timer utc_timestamp StorageOk
        (run utc_timestamp create_tables
           [(StorageOk, 63900000000000000, AddUser 1 ''alice''),
            (StorageOk, 63900000000000001, AddTimer 1 1),
            (StorageOk, 63900000000000002, AddTimer 1 2),
            (StorageOk, 63900000000000003, AddTimer 1 3),
            (StorageOk, 63900000000000004, DeleteTimer 1 2)]) 1 1 63900000000000005) = Some 4
   \<and> map timer_number
        (timers (snd (add_timer utc_timestamp StorageOk
           (run utc_timestamp create_tables
              [(StorageOk, 63900000000000000, AddUser 1 ''alice''),
               (StorageOk, 63900000000000001, AddTimer 1 1),
               (StorageOk, 63900000000000002, AddTimer 1 2),
               (StorageOk, 63900000000000003, AddTimer 1 3),
               (StorageOk, 63900000000000004, DeleteTimer 1 2)]) 1 1 63900000000000005)))
       = [1, 2, 3, 4]
   \<and> sorted_wrt (<)
        (user_timer_numbers
           (run utc_timestamp
              (run utc_timestamp create_tables
                 [(StorageOk, 63900000000000000, AddUser 1 ''alice''),
                  (StorageOk, 63900000000000001, AddTimer 1 1),
                  (StorageOk, 63900000000000002, AddTimer 1 2),
                  (StorageOk, 63900000000000003, AddTimer 1 3),
                  (StorageOk, 63900000000000004, DeleteTimer 1 2)])
              [(StorageOk, 63900000000000005, AddTimer 1 1)]) 1)"
proof -
  let ?db = "run utc_timestamp create_tables
        [(StorageOk, 63900000000000000, AddUser 1 ''alice''),
         (StorageOk, 63900000000000001, AddTimer 1 1),
         (StorageOk, 63900000000000002, AddTimer 1 2),
         (StorageOk, 63900000000000003, AddTimer 1 3),
         (StorageOk, 63900000000000004, DeleteTimer 1 2)]"
  have nums: "user_timer_numbers ?db 1 = [1, 2, 3]"
    by (simp add: user_timer_numbers_def store_eval)
  have some: "fst (add_timer utc_timestamp StorageOk ?db 1 1 63900000000000005) = Some 4"
    by (simp add: store_eval)
  have inc: "sorted_wrt (<) (user_timer_numbers ?db 1)"
    unfolding nums by simp
  from timer_numbers_strictly_increasing
         [of utc_timestamp StorageOk ?db 1 1 63900000000000005
             "[(StorageOk, 63900000000000005, AddTimer 1 1)]" 1]
  have new: "\<exists>row. timers (snd (add_timer utc_timestamp StorageOk ?db 1 1 63900000000000005))
                 = timers ?db @ [row] \<and> timer_number row = 4"
    and sorted: "sorted_wrt (<)
        (user_timer_numbers (run utc_timestamp ?db [(StorageOk, 63900000000000005, AddTimer 1 1)]) 1)"
    using some inc unfolding nums by auto
  have "map timer_number (timers ?db) = [1, 2, 3]"
    by (simp add: store_eval)
  with new have "map timer_number (timers (snd (add_timer utc_timestamp StorageOk ?db 1 1 63900000000000005)))
                 = [1, 2, 3, 4]"
    by auto
  with nums some sorted show ?thesis by simp
qed

subsection \<open>Expired timers are returned once\<close>






































section \<open>Properties of the backup manager\<close>

subsection \<open>Restoring\<close>

lemma temp_neq: "db_path @ ''.temp'' \<noteq> db_path"
  by simp

lemma restore_except_result:
  assumes "fs temp = Some c" and "temp \<noteq> db_path"
  shows "restore_except db_path temp fs = (False, (fs(db_path \<mapsto> c))(temp := None))"
  using assms by (simp add: restore_except_def copy2_def unlink_def)

lemma restore_try_failure:
  assumes "restore_try pragma db_path backup_path temp fs = Inl (e, fs')"
  shows "\<forall>p. p \<noteq> db_path \<longrightarrow> fs' p = fs p"
  using assms
  by (auto simp: restore_try_def copy2_def unlink_def connect_def Let_def
      split: option.splits sum.splits if_splits)

lemma restore_try_success:
  assumes "restore_try pragma db_path backup_path temp fs = Inr fs'" and "temp \<noteq> db_path"
  shows "\<exists>c. fs backup_path = Some c \<and> backup_path \<noteq> db_path \<and> pragma c = Inr ''ok''
           \<and> fs' = (fs(db_path \<mapsto> c))(temp := None) \<and> fs temp \<noteq> None"
  using assms
  by (auto simp: restore_try_def copy2_def unlink_def connect_def read_file_def Let_def
      split: option.splits sum.splits if_splits)

lemma restore_try_corrupt:
  assumes "fs backup_path = Some snap" and "pragma snap \<noteq> Inr ''ok''"
  shows "\<exists>e fs'. restore_try pragma db_path backup_path temp fs = Inl (e, fs')"
  using assms
  by (auto simp: restore_try_def copy2_def unlink_def connect_def read_file_def Let_def
      split: option.splits sum.splits if_splits)

lemma restore_try_valid:
  assumes "fs backup_path = Some snap" and "pragma snap = Inr ''ok''"
    and "backup_path \<noteq> db_path" and "fs temp \<noteq> None"
  shows "restore_try pragma db_path backup_path temp fs
           = Inr ((fs(db_path \<mapsto> snap))(temp := None))"
  using assms
  by (auto simp: restore_try_def copy2_def unlink_def connect_def read_file_def Let_def
      split: option.splits sum.splits if_splits)

lemma restore_from_backup_failure:
  assumes "\<not> fst (restore_from_backup pragma db_path backup_path fs)"
  shows "snd (restore_from_backup pragma db_path backup_path fs) = fs
         \<or> snd (restore_from_backup pragma db_path backup_path fs) = fs(db_path @ ''.temp'' := None)"
proof (cases "fs db_path")
  case None
  then show ?thesis by (simp add: restore_from_backup_def copy2_def)
next
  case (Some live)
  let ?temp = "db_path @ ''.temp''"
  let ?fs1 = "fs(?temp \<mapsto> live)"
  from Some have c1: "copy2 fs db_path ?temp = Inr ?fs1"
    by (simp add: copy2_def)
  show ?thesis
  proof (cases "restore_try pragma db_path backup_path ?temp ?fs1")
    case (Inr fs3)
    with c1 assms show ?thesis by (simp add: restore_from_backup_def)
  next
    case (Inl a)
    then obtain e fs2 where a: "restore_try pragma db_path backup_path ?temp ?fs1 = Inl (e, fs2)"
      by (cases a) auto
    from restore_try_failure [OF a] have same: "\<forall>p. p \<noteq> db_path \<longrightarrow> fs2 p = ?fs1 p" .
    then have t: "fs2 ?temp = Some live" by simp
    have "restore_except db_path ?temp fs2 = (False, (fs2(db_path \<mapsto> live))(?temp := None))"
      using t by (intro restore_except_result) simp_all
    moreover have "(fs2(db_path \<mapsto> live))(?temp := None) = fs(?temp := None)"
      using same Some by (auto simp: fun_eq_iff)
    ultimately show ?thesis using c1 a by (simp add: restore_from_backup_def)
  qed
qed

lemma restore_except_False:
  "\<not> fst (restore_except db_path temp fs)"
  by (simp add: restore_except_def split: sum.splits)

lemma check_database_integrity_file:
  "fs p = Some c \<Longrightarrow> fst (check_database_integrity pragma fs p) = (pragma c = Inr ''ok'')"
  by (auto simp: check_database_integrity_def connect_def read_file_def Let_def
      split: sum.splits)

lemma restore_from_backup_corrupt:
  assumes live: "fs db_path = Some live" and snap: "fs backup_path = Some snap"
    and ne: "backup_path \<noteq> db_path @ ''.temp''" and bad: "pragma snap \<noteq> Inr ''ok''"
  shows "\<not> fst (restore_from_backup pragma db_path backup_path fs)"
proof -
  let ?temp = "db_path @ ''.temp''"
  let ?fs1 = "fs(?temp \<mapsto> live)"
  from live have c1: "copy2 fs db_path ?temp = Inr ?fs1"
    by (simp add: copy2_def)
  from snap ne have "?fs1 backup_path = Some snap" by simp
  with bad restore_try_corrupt [of ?fs1 backup_path snap pragma db_path ?temp]
  obtain e fs2 where
    "restore_try pragma db_path backup_path ?temp ?fs1 = Inl (e, fs2)" by blast
  with c1 show ?thesis
    by (simp add: restore_from_backup_def restore_except_False)
qed

lemma restore_from_backup_success:
  assumes "fst (restore_from_backup pragma db_path backup_path fs)"
  shows "\<exists>c. snd (restore_from_backup pragma db_path backup_path fs) db_path = Some c
           \<and> pragma c = Inr ''ok''
           \<and> snd (restore_from_backup pragma db_path backup_path fs) (db_path @ ''.temp'') = None"
proof (cases "fs db_path")
  case None
  with assms show ?thesis by (simp add: restore_from_backup_def copy2_def)
next
  case (Some live)
  let ?temp = "db_path @ ''.temp''"
  let ?fs1 = "fs(?temp \<mapsto> live)"
  from Some have c1: "copy2 fs db_path ?temp = Inr ?fs1"
    by (simp add: copy2_def)
  show ?thesis
  proof (cases "restore_try pragma db_path backup_path ?temp ?fs1")
    case (Inl a)
    with c1 assms show ?thesis
      by (cases a) (simp add: restore_from_backup_def restore_except_False)
  next
    case (Inr fs3)
    from restore_try_success [OF Inr] obtain c where
      "pragma c = Inr ''ok''" "fs3 = (?fs1(db_path \<mapsto> c))(?temp := None)"
      by auto
    moreover from c1 Inr have "snd (restore_from_backup pragma db_path backup_path fs) = fs3"
      by (simp add: restore_from_backup_def)
    ultimately show ?thesis by simp
  qed
qed

lemma restore_from_backup_valid:
  assumes live: "fs db_path = Some live" and snap: "fs backup_path = Some snap"
    and ne: "backup_path \<noteq> db_path" "backup_path \<noteq> db_path @ ''.temp''"
    and good: "pragma snap = Inr ''ok''"
  shows "restore_from_backup pragma db_path backup_path fs = (True, fs(db_path \<mapsto> snap))
         \<or> restore_from_backup pragma db_path backup_path fs
             = (True, (fs(db_path \<mapsto> snap))(db_path @ ''.temp'' := None))"
proof -
  let ?temp = "db_path @ ''.temp''"
  let ?fs1 = "fs(?temp \<mapsto> live)"
  from live have c1: "copy2 fs db_path ?temp = Inr ?fs1"
    by (simp add: copy2_def)
  from snap ne have "?fs1 backup_path = Some snap" by simp
  with good ne(1) restore_try_valid [of ?fs1 backup_path snap pragma db_path ?temp]
  have "restore_try pragma db_path backup_path ?temp ?fs1
          = Inr ((?fs1(db_path \<mapsto> snap))(?temp := None))"
    by simp
  moreover have "(?fs1(db_path \<mapsto> snap))(?temp := None) = (fs(db_path \<mapsto> snap))(?temp := None)"
    by (auto simp: fun_eq_iff)
  ultimately show ?thesis using c1 by (simp add: restore_from_backup_def)
qed

text \<open>
  Claim C6. When \<^verbatim>\<open>restore_from_backup\<close> returns \<^verbatim>\<open>False\<close>, every file but the side
  file \<^verbatim>\<open>db_path + ".temp"\<close>, so the live store in particular, has the content it had
  before the call. When the live store exists and the snapshot fails the integrity
  check, the call returns \<^verbatim>\<open>False\<close> and the live store has its old content. When the
  call returns \<^verbatim>\<open>True\<close>, the live store passes the integrity check and the side file
  is gone; and a snapshot that passes the check is restored.
\<close>

theorem restore_from_backup_atomic:
  "(\<not> fst (restore_from_backup pragma db_path backup_path fs) \<longrightarrow>
      (\<forall>p. p \<noteq> db_path @ ''.temp'' \<longrightarrow>
           snd (restore_from_backup pragma db_path backup_path fs) p = fs p))
   \<and> (fs db_path = Some live \<and> fs backup_path \<noteq> None
        \<and> backup_path \<noteq> db_path @ ''.temp''
        \<and> \<not> fst (check_database_integrity pragma fs backup_path) \<longrightarrow>
        \<not> fst (restore_from_backup pragma db_path backup_path fs)
        \<and> snd (restore_from_backup pragma db_path backup_path fs) db_path = Some live)
   \<and> (fst (restore_from_backup pragma db_path backup_path fs) \<longrightarrow>
        fst (check_database_integrity pragma
               (snd (restore_from_backup pragma db_path backup_path fs)) db_path)
        \<and> snd (restore_from_backup pragma db_path backup_path fs) (db_path @ ''.temp'') = None)
   \<and> (fs db_path \<noteq> None \<and> fs backup_path = Some snap
        \<and> backup_path \<noteq> db_path \<and> backup_path \<noteq> db_path @ ''.temp''
        \<and> fst (check_database_integrity pragma fs backup_path) \<longrightarrow>
        fst (restore_from_backup pragma db_path backup_path fs)
        \<and> snd (restore_from_backup pragma db_path backup_path fs) db_path = Some snap)"
proof -
  let ?R = "restore_from_backup pragma db_path backup_path fs"
  have unchanged: "\<forall>p. p \<noteq> db_path @ ''.temp'' \<longrightarrow> snd ?R p = fs p" if "\<not> fst ?R"
    using restore_from_backup_failure [OF that] by auto
  have corrupt: "\<not> fst ?R \<and> snd ?R db_path = Some live"
    if h: "fs db_path = Some live \<and> fs backup_path \<noteq> None
        \<and> backup_path \<noteq> db_path @ ''.temp''
        \<and> \<not> fst (check_database_integrity pragma fs backup_path)"
  proof -
    from h obtain c where c: "fs backup_path = Some c" by auto
    with h have "pragma c \<noteq> Inr ''ok''"
      by (simp add: check_database_integrity_file)
    with h c have "\<not> fst ?R"
      by (intro restore_from_backup_corrupt [of fs db_path live backup_path c]) simp_all
    with unchanged h show ?thesis by simp
  qed
  have success: "fst (check_database_integrity pragma (snd ?R) db_path)
        \<and> snd ?R (db_path @ ''.temp'') = None" if "fst ?R"
    using restore_from_backup_success [OF that]
    by (auto simp: check_database_integrity_file)
  have valid: "fst ?R \<and> snd ?R db_path = Some snap"
    if h: "fs db_path \<noteq> None \<and> fs backup_path = Some snap
        \<and> backup_path \<noteq> db_path \<and> backup_path \<noteq> db_path @ ''.temp''
        \<and> fst (check_database_integrity pragma fs backup_path)"
  proof -
    from h obtain c where c: "fs db_path = Some c" by auto
    from h have "pragma snap = Inr ''ok''"
      using check_database_integrity_file [of fs backup_path snap pragma] by simp
    with h c restore_from_backup_valid [of fs db_path c backup_path snap pragma]
    show ?thesis by auto
  qed
  from unchanged corrupt success valid show ?thesis by blast
qed

theorem restore_from_backup_atomic_witness:
  "\<not> fst (check_database_integrity
        (\<lambda>c. if c = ''corrupt'' then Inr ''row 3 missing from index'' else Inr ''ok'')
        [''timer_bot.db'' \<mapsto> ''live'', ''backups/backup_1.db'' \<mapsto> ''corrupt'',
       ''backups/backup_2.db'' \<mapsto> ''good'']
        ''backups/backup_1.db'')
   \<and> \<not> fst (restore_from_backup
        (\<lambda>c. if c = ''corrupt'' then Inr ''row 3 missing from index'' else Inr ''ok'')
        ''timer_bot.db'' ''backups/backup_1.db''
        [''timer_bot.db'' \<mapsto> ''live'', ''backups/backup_1.db'' \<mapsto> ''corrupt'',
       ''backups/backup_2.db'' \<mapsto> ''good''])
   \<and> snd (restore_from_backup
        (\<lambda>c. if c = ''corrupt'' then Inr ''row 3 missing from index'' else Inr ''ok'')
        ''timer_bot.db'' ''backups/backup_1.db''
        [''timer_bot.db'' \<mapsto> ''live'', ''backups/backup_1.db'' \<mapsto> ''corrupt'',
       ''backups/backup_2.db'' \<mapsto> ''good'']) ''timer_bot.db'' = Some ''live''
   \<and> fst (check_database_integrity
        (\<lambda>c. if c = ''corrupt'' then Inr ''row 3 missing from index'' else Inr ''ok'')
        [''timer_bot.db'' \<mapsto> ''live'', ''backups/backup_1.db'' \<mapsto> ''corrupt'',
       ''backups/backup_2.db'' \<mapsto> ''good'']
        ''backups/backup_2.db'')
   \<and> fst (restore_from_backup
        (\<lambda>c. if c = ''corrupt'' then Inr ''row 3 missing from index'' else Inr ''ok'')
        ''timer_bot.db'' ''backups/backup_2.db''
        [''timer_bot.db'' \<mapsto> ''live'', ''backups/backup_1.db'' \<mapsto> ''corrupt'',
       ''backups/backup_2.db'' \<mapsto> ''good''])
   \<and> snd (restore_from_backup
        (\<lambda>c. if c = ''corrupt'' then Inr ''row 3 missing from index'' else Inr ''ok'')
        ''timer_bot.db'' ''backups/backup_2.db''
        [''timer_bot.db'' \<mapsto> ''live'', ''backups/backup_1.db'' \<mapsto> ''corrupt'',
       ''backups/backup_2.db'' \<mapsto> ''good'']) ''timer_bot.db'' = Some ''good''
   \<and> snd (restore_from_backup
        (\<lambda>c. if c = ''corrupt'' then Inr ''row 3 missing from index'' else Inr ''ok'')
        ''timer_bot.db'' ''backups/backup_2.db''
        [''timer_bot.db'' \<mapsto> ''live'', ''backups/backup_1.db'' \<mapsto> ''corrupt'',
       ''backups/backup_2.db'' \<mapsto> ''good'']) ''timer_bot.db.temp'' = None"
proof -
  let ?pragma = "(\<lambda>c. if c = ''corrupt'' then Inr ''row 3 missing from index'' else Inr ''ok'')"
  let ?fs = "[''timer_bot.db'' \<mapsto> ''live'', ''backups/backup_1.db'' \<mapsto> ''corrupt'',
       ''backups/backup_2.db'' \<mapsto> ''good'']"
  have live: "?fs ''timer_bot.db'' = Some ''live''"
    by simp
  have bad: "\<not> fst (check_database_integrity ?pragma ?fs ''backups/backup_1.db'')"
    by (simp add: check_database_integrity_def connect_def read_file_def)
  have good: "fst (check_database_integrity ?pragma ?fs ''backups/backup_2.db'')"
    by (simp add: check_database_integrity_def connect_def read_file_def)
  have snap1: "?fs ''backups/backup_1.db'' \<noteq> None"
    and snap2: "?fs ''backups/backup_2.db'' = Some ''good''"
    by simp_all
  have paths: "''backups/backup_1.db'' \<noteq> ''timer_bot.db'' @ ''.temp''"
    "''backups/backup_2.db'' \<noteq> ''timer_bot.db''"
    "''backups/backup_2.db'' \<noteq> ''timer_bot.db'' @ ''.temp''"
    by simp_all
  from restore_from_backup_atomic
         [of ?pragma "''timer_bot.db''" "''backups/backup_1.db''" ?fs "''live''" "''corrupt''"]
       live bad snap1 paths(1)
  have r1: "\<not> fst (restore_from_backup ?pragma ''timer_bot.db'' ''backups/backup_1.db'' ?fs)
      \<and> snd (restore_from_backup ?pragma ''timer_bot.db'' ''backups/backup_1.db'' ?fs)
            ''timer_bot.db'' = Some ''live''"
    by blast
  from restore_from_backup_atomic
         [of ?pragma "''timer_bot.db''" "''backups/backup_2.db''" ?fs "''live''" "''good''"]
       live good snap2 paths(2,3)
  have r2: "fst (restore_from_backup ?pragma ''timer_bot.db'' ''backups/backup_2.db'' ?fs)
      \<and> snd (restore_from_backup ?pragma ''timer_bot.db'' ''backups/backup_2.db'' ?fs)
            ''timer_bot.db'' = Some ''good''
      \<and> snd (restore_from_backup ?pragma ''timer_bot.db'' ''backups/backup_2.db'' ?fs)
            (''timer_bot.db'' @ ''.temp'') = None"
    by blast
  from bad good r1 r2 show ?thesis by simp
qed

subsection \<open>Creating a backup\<close>

lemma connect_other: "p \<noteq> db_path \<Longrightarrow> connect fs db_path p = fs p"
  by (simp add: connect_def split: option.splits)

lemma connect_existing: "fs db_path \<noteq> None \<Longrightarrow> connect fs db_path = fs"
  by (auto simp: connect_def split: option.splits)

lemma snd_check_database_integrity:
  "snd (check_database_integrity pragma fs db_name) = connect fs db_name"
  by (simp add: check_database_integrity_def Let_def split: sum.splits)

lemma fst_check_database_integrity:
  "fst (check_database_integrity pragma fs db_name)
     = (pragma (read_file (connect fs db_name) db_name) = Inr ''ok'')"
  by (simp add: check_database_integrity_def Let_def split: sum.splits)

lemma create_backup_failure:
  "\<not> fst (create_backup pragma vacuum backup_dir db_path timestamp fs)
     \<Longrightarrow> snd (create_backup pragma vacuum backup_dir db_path timestamp fs) = connect fs db_path"
  by (auto simp: create_backup_def Let_def split: sum.splits if_splits)

lemma create_backup_success:
  "fst (create_backup pragma vacuum backup_dir db_path timestamp fs)
     \<Longrightarrow> pragma (read_file (connect fs db_path) db_path) = Inr ''ok''
         \<and> snd (create_backup pragma vacuum backup_dir db_path timestamp fs)
             = (connect fs db_path)
                 (backup_dir @ ''/'' @ ''backup_'' @ timestamp @ ''.db''
                    \<mapsto> vacuum (read_file (connect fs db_path) db_path))"
  by (auto simp: create_backup_def Let_def split: sum.splits if_splits)

lemma create_backup_check_fails:
  "pragma (read_file (connect fs db_path) db_path) \<noteq> Inr ''ok''
     \<Longrightarrow> create_backup pragma vacuum backup_dir db_path timestamp fs
           = (False, connect fs db_path)"
  by (simp add: create_backup_def Let_def split: sum.splits)

text \<open>
  Claim C8. \<^verbatim>\<open>create_backup\<close> runs the integrity check first. When the check fails (the
  pragma answers something else than \<^verbatim>\<open>ok\<close>, or raises), the call returns \<^verbatim>\<open>False\<close> and
  writes no file: every path but the live store's keeps what it had, and an existing
  live store leaves the file system unchanged. When the call returns \<^verbatim>\<open>True\<close>, the check
  has passed and the snapshot file holds what \<^verbatim>\<open>VACUUM INTO\<close> writes for the live store.
  A path other than the live store's changes only when the call returns \<^verbatim>\<open>True\<close>.
\<close>

theorem create_backup_checks_first:
  "(\<not> fst (check_database_integrity pragma fs db_path) \<longrightarrow>
      \<not> fst (create_backup pragma vacuum backup_dir db_path timestamp fs)
      \<and> (\<forall>p. p \<noteq> db_path \<longrightarrow>
             snd (create_backup pragma vacuum backup_dir db_path timestamp fs) p = fs p)
      \<and> (fs db_path \<noteq> None \<longrightarrow>
             snd (create_backup pragma vacuum backup_dir db_path timestamp fs) = fs))
   \<and> (fst (create_backup pragma vacuum backup_dir db_path timestamp fs) \<longrightarrow>
        fst (check_database_integrity pragma fs db_path)
        \<and> snd (create_backup pragma vacuum backup_dir db_path timestamp fs)
              (backup_dir @ ''/'' @ ''backup_'' @ timestamp @ ''.db'')
            = Some (vacuum (read_file (connect fs db_path) db_path)))
   \<and> (\<forall>p. p \<noteq> db_path
          \<and> snd (create_backup pragma vacuum backup_dir db_path timestamp fs) p \<noteq> fs p \<longrightarrow>
        fst (create_backup pragma vacuum backup_dir db_path timestamp fs)
        \<and> fst (check_database_integrity pragma fs db_path))"
proof -
  let ?B = "create_backup pragma vacuum backup_dir db_path timestamp fs"
  let ?ok = "pragma (read_file (connect fs db_path) db_path) = Inr ''ok''"
  have chk: "fst (check_database_integrity pragma fs db_path) = ?ok"
    by (rule fst_check_database_integrity)
  have fails: "\<not> fst ?B \<and> (\<forall>p. p \<noteq> db_path \<longrightarrow> snd ?B p = fs p)
      \<and> (fs db_path \<noteq> None \<longrightarrow> snd ?B = fs)" if "\<not> ?ok"
    using that create_backup_check_fails [of pragma fs db_path vacuum backup_dir timestamp]
    by (simp add: connect_other connect_existing)
  have succ: "?ok \<and> snd ?B (backup_dir @ ''/'' @ ''backup_'' @ timestamp @ ''.db'')
            = Some (vacuum (read_file (connect fs db_path) db_path))" if "fst ?B"
    using create_backup_success [OF that] by simp
  have changed: "fst ?B \<and> ?ok" if "p \<noteq> db_path \<and> snd ?B p \<noteq> fs p" for p
  proof -
    have "fst ?B"
    proof (rule ccontr)
      assume "\<not> fst ?B"
      from create_backup_failure [OF this] that connect_other [of p db_path fs]
      show False by simp
    qed
    with succ show ?thesis by simp
  qed
  from fails succ changed show ?thesis unfolding chk by blast
qed

theorem create_backup_checks_first_witness:
  "\<not> fst (check_database_integrity
        (\<lambda>c. if c = ''corrupt'' then Inr ''row 3 missing from index'' else Inr ''ok'')
        [''timer_bot.db'' \<mapsto> ''corrupt''] ''timer_bot.db'')
   \<and> \<not> fst (create_backup
        (\<lambda>c. if c = ''corrupt'' then Inr ''row 3 missing from index'' else Inr ''ok'')
        (\<lambda>c. ''vacuumed '' @ c)
        ''backups'' ''timer_bot.db'' ''20250101_000000''
        [''timer_bot.db'' \<mapsto> ''corrupt''])
   \<and> snd (create_backup
        (\<lambda>c. if c = ''corrupt'' then Inr ''row 3 missing from index'' else Inr ''ok'')
        (\<lambda>c. ''vacuumed '' @ c)
        ''backups'' ''timer_bot.db'' ''20250101_000000''
        [''timer_bot.db'' \<mapsto> ''corrupt'']) = [''timer_bot.db'' \<mapsto> ''corrupt'']
   \<and> fst (check_database_integrity
        (\<lambda>c. if c = ''corrupt'' then Inr ''row 3 missing from index'' else Inr ''ok'')
        [''timer_bot.db'' \<mapsto> ''live''] ''timer_bot.db'')
   \<and> fst (create_backup
        (\<lambda>c. if c = ''corrupt'' then Inr ''row 3 missing from index'' else Inr ''ok'')
        (\<lambda>c. ''vacuumed '' @ c)
        ''backups'' ''timer_bot.db'' ''20250101_000000''
        [''timer_bot.db'' \<mapsto> ''live''])
   \<and> snd (create_backup
        (\<lambda>c. if c = ''corrupt'' then Inr ''row 3 missing from index'' else Inr ''ok'')
        (\<lambda>c. ''vacuumed '' @ c)
        ''backups'' ''timer_bot.db'' ''20250101_000000''
        [''timer_bot.db'' \<mapsto> ''live'']) ''backups/backup_20250101_000000.db''
       = Some ''vacuumed live''"
proof -
  let ?pragma = "(\<lambda>c. if c = ''corrupt'' then Inr ''row 3 missing from index'' else Inr ''ok'')"
  let ?vacuum = "(\<lambda>c. ''vacuumed '' @ c)"
  have bad: "\<not> fst (check_database_integrity ?pragma
                     [''timer_bot.db'' \<mapsto> ''corrupt''] ''timer_bot.db'')"
    by (simp add: check_database_integrity_def connect_def read_file_def)
  have good: "fst (check_database_integrity ?pragma
                    [''timer_bot.db'' \<mapsto> ''live''] ''timer_bot.db'')"
    by (simp add: check_database_integrity_def connect_def read_file_def)
  have ex: "[''timer_bot.db'' \<mapsto> ''corrupt''] ''timer_bot.db'' \<noteq> None"
    by simp
  from create_backup_checks_first
         [of ?pragma "[''timer_bot.db'' \<mapsto> ''corrupt'']" "''timer_bot.db''" ?vacuum
             "''backups''" "''20250101_000000''"]
       bad ex
  have b: "\<not> fst (create_backup ?pragma ?vacuum ''backups'' ''timer_bot.db''
                ''20250101_000000'' [''timer_bot.db'' \<mapsto> ''corrupt''])
      \<and> snd (create_backup ?pragma ?vacuum ''backups'' ''timer_bot.db''
                ''20250101_000000'' [''timer_bot.db'' \<mapsto> ''corrupt''])
          = [''timer_bot.db'' \<mapsto> ''corrupt'']"
    by blast
  have g: "fst (create_backup ?pragma ?vacuum ''backups'' ''timer_bot.db''
                ''20250101_000000'' [''timer_bot.db'' \<mapsto> ''live''])"
    by (simp add: create_backup_def connect_def read_file_def)
  with create_backup_checks_first
         [of ?pragma "[''timer_bot.db'' \<mapsto> ''live'']" "''timer_bot.db''" ?vacuum
             "''backups''" "''20250101_000000''"]
  have "snd (create_backup ?pragma ?vacuum ''backups'' ''timer_bot.db''
                ''20250101_000000'' [''timer_bot.db'' \<mapsto> ''live''])
          (''backups'' @ ''/'' @ ''backup_'' @ ''20250101_000000'' @ ''.db'')
        = Some (?vacuum (read_file (connect [''timer_bot.db'' \<mapsto> ''live''] ''timer_bot.db'')
                           ''timer_bot.db''))"
    by blast
  then have s: "snd (create_backup ?pragma ?vacuum ''backups'' ''timer_bot.db''
                ''20250101_000000'' [''timer_bot.db'' \<mapsto> ''live''])
          ''backups/backup_20250101_000000.db'' = Some ''vacuumed live''"
    by (simp add: connect_def read_file_def)
  from bad good b g s show ?thesis by simp
qed

subsection \<open>Pruning old backups\<close>

lemma int_less_div_iff:
  fixes a d k :: int
  assumes "0 < d"
  shows "(k < a div d) = ((k + 1) * d \<le> a)"
proof -
  have eq: "a = (a div d) * d + a mod d" by simp
  have r: "0 \<le> a mod d" "a mod d < d" using assms by simp_all
  show ?thesis
  proof
    assume "k < a div d"
    then have "k + 1 \<le> a div d" by simp
    with assms have "(k + 1) * d \<le> (a div d) * d" by (simp add: mult_right_mono)
    with eq r(1) show "(k + 1) * d \<le> a" by linarith
  next
    assume le: "(k + 1) * d \<le> a"
    show "k < a div d"
    proof (rule ccontr)
      assume "\<not> k < a div d"
      then have "a div d + 1 \<le> k + 1" by simp
      with assms have "(a div d + 1) * d \<le> (k + 1) * d" by (simp add: mult_right_mono)
      moreover have "(a div d + 1) * d = (a div d) * d + d" by (simp add: algebra_simps)
      ultimately show False using le eq r(2) by linarith
    qed
  qed
qed

lemma timedelta_days_gt:
  "(keep_days < timedelta_days current_time t)
     = ((keep_days + 1) * 86400000000 \<le> current_time - t)"
  unfolding timedelta_days_def by (rule int_less_div_iff) simp

lemma cleanup_loop_no_fault:
  "(\<And>f. f \<in> set dir \<Longrightarrow> fault (file_name f) = NoFault)
     \<Longrightarrow> cleanup_loop fault current_time keep_days dir
         = filter (\<lambda>f. \<not> (glob_match (file_name f)
                           \<and> keep_days < timedelta_days current_time (st_mtime f))) dir"
  by (induction dir) auto

lemma cleanup_loop_deleted:
  "f \<in> set dir \<Longrightarrow> f \<notin> set (cleanup_loop fault current_time keep_days dir)
     \<Longrightarrow> glob_match (file_name f) \<and> keep_days < timedelta_days current_time (st_mtime f)"
  by (induction dir) (auto split: if_splits)

lemma cleanup_loop_content:
  "cleanup_loop fault current_time keep_days (map (\<lambda>f. f\<lparr>file_content := c f\<rparr>) dir)
     = map (\<lambda>f. f\<lparr>file_content := c f\<rparr>) (cleanup_loop fault current_time keep_days dir)"
  by (induction dir) auto

text \<open>
  Claim C9, as stated, fails: the code compares the whole days of the age,
  \<^verbatim>\<open>.days\<close>, with \<open>keep_days\<close>. A snapshot seven and a half days old is older than
  seven days and is kept by \<^verbatim>\<open>cleanup_old_backups(7)\<close>.
\<close>

theorem cleanup_keeps_file_older_than_keep_days:
  "glob_match ''backup_20250101_000000.db''
   \<and> older_than_days 63900000000000000 7
        \<lparr>file_name = ''backup_20250101_000000.db'', st_mtime = 63899352000000000,
        file_content = ''snapshot''\<rparr>
   \<and> cleanup_old_backups (\<lambda>n. NoFault) 63900000000000000 7
        [\<lparr>file_name = ''backup_20250101_000000.db'', st_mtime = 63899352000000000,
        file_content = ''snapshot''\<rparr>]
       = [\<lparr>file_name = ''backup_20250101_000000.db'', st_mtime = 63899352000000000,
        file_content = ''snapshot''\<rparr>]"
  by (simp add: glob_match_def older_than_days_def cleanup_old_backups_def timedelta_days_def)

text \<open>
  Claim C9, amended. When no \<^verbatim>\<open>stat\<close> or \<^verbatim>\<open>unlink\<close> raises, \<^verbatim>\<open>cleanup_old_backups\<close>
  deletes exactly the files that match \<^verbatim>\<open>backup_*.db\<close> and whose age is at least
  \<open>keep_days + 1\<close> whole days. In every case only such files are deleted, so every file
  that is not older than \<open>keep_days\<close> days stays; and which files go does not depend on
  their content.
\<close>

theorem cleanup_deletes_by_whole_days:
  "((\<forall>f \<in> set dir. fault (file_name f) = NoFault) \<longrightarrow>
      cleanup_old_backups fault current_time keep_days dir
      = filter (\<lambda>f. \<not> (glob_match (file_name f)
                        \<and> (keep_days + 1) * 86400000000 \<le> current_time - st_mtime f)) dir)
   \<and> (\<forall>f \<in> set dir. f \<notin> set (cleanup_old_backups fault current_time keep_days dir) \<longrightarrow>
          glob_match (file_name f)
          \<and> (keep_days + 1) * 86400000000 \<le> current_time - st_mtime f)
   \<and> (\<forall>f \<in> set dir. \<not> older_than_days current_time keep_days f \<longrightarrow>
          f \<in> set (cleanup_old_backups fault current_time keep_days dir))
   \<and> cleanup_old_backups fault current_time keep_days (map (\<lambda>f. f\<lparr>file_content := c f\<rparr>) dir)
       = map (\<lambda>f. f\<lparr>file_content := c f\<rparr>)
           (cleanup_old_backups fault current_time keep_days dir)"
proof (intro conjI impI ballI)
  assume "\<forall>f \<in> set dir. fault (file_name f) = NoFault"
  then show "cleanup_old_backups fault current_time keep_days dir
      = filter (\<lambda>f. \<not> (glob_match (file_name f)
                        \<and> (keep_days + 1) * 86400000000 \<le> current_time - st_mtime f)) dir"
    unfolding cleanup_old_backups_def
    by (simp add: cleanup_loop_no_fault timedelta_days_gt)
next
  fix f
  assume "f \<in> set dir" and "f \<notin> set (cleanup_old_backups fault current_time keep_days dir)"
  then have "glob_match (file_name f)
          \<and> (keep_days + 1) * 86400000000 \<le> current_time - st_mtime f"
    unfolding cleanup_old_backups_def timedelta_days_gt [symmetric]
    by (rule cleanup_loop_deleted)
  then show "glob_match (file_name f)"
    and "(keep_days + 1) * 86400000000 \<le> current_time - st_mtime f"
    by simp_all
next
  fix f
  assume f: "f \<in> set dir" and young: "\<not> older_than_days current_time keep_days f"
  show "f \<in> set (cleanup_old_backups fault current_time keep_days dir)"
  proof (rule ccontr)
    assume "f \<notin> set (cleanup_old_backups fault current_time keep_days dir)"
    with f have "keep_days < timedelta_days current_time (st_mtime f)"
      unfolding cleanup_old_backups_def by (blast dest: cleanup_loop_deleted)
    then have "(keep_days + 1) * 86400000000 \<le> current_time - st_mtime f"
      by (simp only: timedelta_days_gt)
    with young show False
      by (simp add: older_than_days_def algebra_simps)
  qed
next
  show "cleanup_old_backups fault current_time keep_days (map (\<lambda>f. f\<lparr>file_content := c f\<rparr>) dir)
       = map (\<lambda>f. f\<lparr>file_content := c f\<rparr>)
           (cleanup_old_backups fault current_time keep_days dir)"
    unfolding cleanup_old_backups_def by (rule cleanup_loop_content)
qed

theorem cleanup_deletes_by_whole_days_witness:
  "cleanup_old_backups (\<lambda>n. NoFault) 63900000000000000 7
        [\<lparr>file_name = ''backup_20250108_000000.db'', st_mtime = 63899913600000000,
          file_content = ''new snapshot''\<rparr>,
         \<lparr>file_name = ''backup_20250101_000000.db'', st_mtime = 63899352000000000,
          file_content = ''snapshot''\<rparr>,
         \<lparr>file_name = ''backup_20241220_000000.db'', st_mtime = 63898300000000000,
          file_content = ''old snapshot''\<rparr>,
         \<lparr>file_name = ''notes.txt'', st_mtime = 63000000000000000,
          file_content = ''notes''\<rparr>]
     = [\<lparr>file_name = ''backup_20250108_000000.db'', st_mtime = 63899913600000000,
          file_content = ''new snapshot''\<rparr>,
         \<lparr>file_name = ''backup_20250101_000000.db'', st_mtime = 63899352000000000,
          file_content = ''snapshot''\<rparr>,
         \<lparr>file_name = ''notes.txt'', st_mtime = 63000000000000000,
          file_content = ''notes''\<rparr>]
   \<and> \<not> older_than_days 63900000000000000 7
         \<lparr>file_name = ''backup_20250108_000000.db'', st_mtime = 63899913600000000,
          file_content = ''new snapshot''\<rparr>
   \<and> (7 + 1) * 86400000000
       \<le> 63900000000000000 - st_mtime
         \<lparr>file_name = ''backup_20241220_000000.db'', st_mtime = 63898300000000000,
          file_content = ''old snapshot''\<rparr>"
proof -
  let ?dir = "[\<lparr>file_name = ''backup_20250108_000000.db'', st_mtime = 63899913600000000,
          file_content = ''new snapshot''\<rparr>,
         \<lparr>file_name = ''backup_20250101_000000.db'', st_mtime = 63899352000000000,
          file_content = ''snapshot''\<rparr>,
         \<lparr>file_name = ''backup_20241220_000000.db'', st_mtime = 63898300000000000,
          file_content = ''old snapshot''\<rparr>,
         \<lparr>file_name = ''notes.txt'', st_mtime = 63000000000000000,
          file_content = ''notes''\<rparr>]"
  have no_fault: "\<forall>f \<in> set ?dir. (\<lambda>n. NoFault) (file_name f) = NoFault"
    by simp
  have globs: "glob_match ''backup_20250108_000000.db''" "glob_match ''backup_20250101_000000.db''"
    "glob_match ''backup_20241220_000000.db''" "\<not> glob_match ''notes.txt''"
    by (simp_all add: glob_match_def)
  from cleanup_deletes_by_whole_days [of ?dir "\<lambda>n. NoFault" 63900000000000000 7] no_fault
  have "cleanup_old_backups (\<lambda>n. NoFault) 63900000000000000 7 ?dir
      = filter (\<lambda>f. \<not> (glob_match (file_name f)
                        \<and> (7 + 1) * 86400000000 \<le> 63900000000000000 - st_mtime f)) ?dir"
    by blast
  also have "\<dots> = [\<lparr>file_name = ''backup_20250108_000000.db'', st_mtime = 63899913600000000,
          file_content = ''new snapshot''\<rparr>,
         \<lparr>file_name = ''backup_20250101_000000.db'', st_mtime = 63899352000000000,
          file_content = ''snapshot''\<rparr>,
         \<lparr>file_name = ''notes.txt'', st_mtime = 63000000000000000,
          file_content = ''notes''\<rparr>]"
    using globs by simp
  finally show ?thesis
    by (simp add: older_than_days_def)
qed

end
